theory Spec2Isabelle
  imports Complex_Main "HOL-Library.Word"
begin

section \<open>Values of the program\<close>

text \<open>
  The bot of \<^verbatim>\<open>main.py\<close> is embedded function by function. Python values that the
  handlers take apart dynamically (the decoded body of the extraction API) are values of
  \<open>json\<close>; every operation Python may refuse on such a value returns a sum, \<open>Inl\<close>
  carrying the exception. \<open>exn\<close> stands for an instance of Python's \<^verbatim>\<open>Exception\<close>: its
  class name and \<^verbatim>\<open>str(e)\<close>.

  Timestamps (\<^verbatim>\<open>time.time()\<close>) and the success rate are Python floats; the model
  computes with them as exact rationals.
\<close>

datatype exn = Exn (cls: string) (str: string)

datatype json =
    JNull
  | JBool bool
  | JNum rat
  | JStr string
  | JList "json list"
  | JObj "(string \<times> json) list"

type_synonym bytes = "8 word list"

text \<open>Truth value testing: \<^verbatim>\<open>None\<close>, \<^verbatim>\<open>False\<close>, zero and empty containers are false.\<close>

fun truthy :: "json \<Rightarrow> bool" where
  "truthy JNull = False"
| "truthy (JBool b) = b"
| "truthy (JNum n) = (n \<noteq> 0)"
| "truthy (JStr s) = (s \<noteq> [])"
| "truthy (JList xs) = (xs \<noteq> [])"
| "truthy (JObj kvs) = (kvs \<noteq> [])"

text \<open>\<^verbatim>\<open>d.get(key, default)\<close>: only a dict has the method.\<close>

fun dict_get :: "json \<Rightarrow> string \<Rightarrow> json \<Rightarrow> exn + json" where
  "dict_get (JObj kvs) k d = Inr (case map_of kvs k of None \<Rightarrow> d | Some v \<Rightarrow> v)"
| "dict_get _ k d = Inl (Exn ''AttributeError'' ''object has no attribute get'')"

text \<open>\<^verbatim>\<open>x[key]\<close> with a string key: a dict looks the key up, everything else refuses.\<close>

fun subscript_key :: "json \<Rightarrow> string \<Rightarrow> exn + json" where
  "subscript_key (JObj kvs) k =
     (case map_of kvs k of None \<Rightarrow> Inl (Exn ''KeyError'' k) | Some v \<Rightarrow> Inr v)"
| "subscript_key _ k = Inl (Exn ''TypeError'' ''indices must be integers or object is not subscriptable'')"

text \<open>\<^verbatim>\<open>x[0]\<close>: the first element of a list, the first character of a string.\<close>

fun subscript_0 :: "json \<Rightarrow> exn + json" where
  "subscript_0 (JList []) = Inl (Exn ''IndexError'' ''list index out of range'')"
| "subscript_0 (JList (x # xs)) = Inr x"
| "subscript_0 (JStr []) = Inl (Exn ''IndexError'' ''string index out of range'')"
| "subscript_0 (JStr (c # cs)) = Inr (JStr [c])"
| "subscript_0 (JObj kvs) = Inl (Exn ''KeyError'' ''0'')"
| "subscript_0 _ = Inl (Exn ''TypeError'' ''object is not subscriptable'')"

text \<open>
  What a \<^verbatim>\<open>for\<close> loop walks over: the elements of a list, the characters of a string,
  the keys of a dict; other values are not iterable.
\<close>

fun py_iter :: "json \<Rightarrow> exn + json list" where
  "py_iter (JList xs) = Inr xs"
| "py_iter (JStr s) = Inr (map (\<lambda>c. JStr [c]) s)"
| "py_iter (JObj kvs) = Inr (map (\<lambda>kv. JStr (fst kv)) kvs)"
| "py_iter _ = Inl (Exn ''TypeError'' ''object is not iterable'')"

fun contains :: "string \<Rightarrow> string \<Rightarrow> bool" where
  "contains sub [] = (sub = [])"
| "contains sub (c # cs) = (take (length sub) (c # cs) = sub \<or> contains sub cs)"

text \<open>\<^verbatim>\<open>sub in x\<close> for a string \<open>sub\<close>: substring, element or key membership.\<close>

fun py_in :: "string \<Rightarrow> json \<Rightarrow> exn + bool" where
  "py_in sub (JStr s) = Inr (contains sub s)"
| "py_in sub (JList xs) = Inr (JStr sub \<in> set xs)"
| "py_in sub (JObj kvs) = Inr (sub \<in> set (map fst kvs))"
| "py_in sub _ = Inl (Exn ''TypeError'' ''argument is not iterable'')"

text \<open>
  \<^verbatim>\<open>round(x, 1)\<close>: the nearest multiple of one tenth, a tie going to the even one.
\<close>

definition round_half_even :: "rat \<Rightarrow> int" where
  "round_half_even x =
     (let f = \<lfloor>x\<rfloor>; d = x - of_int f
      in if d < 1 / 2 then f else if 1 / 2 < d then f + 1 else if even f then f else f + 1)"

definition py_round1 :: "rat \<Rightarrow> rat" where
  "py_round1 x = of_int (round_half_even (x * 10)) / 10"

section \<open>State, configuration and the outside world\<close>

text \<open>The module-level dict \<^verbatim>\<open>stats\<close>.\<close>

record statistics =
  total_requests :: int
  successful_requests :: int
  failed_requests :: int
  users :: "int set"
  commands_used :: "string \<rightharpoonup> int"
  start_time :: rat

text \<open>
  Texts the bot sends, one constructor per literal or f-string of the source, holding the
  values the f-string interpolates.
\<close>

datatype message =
    Processing                     \<comment> \<open>\<^verbatim>\<open>Processing...\<close>\<close>
  | WaitBeforeNext rat             \<comment> \<open>\<^verbatim>\<open>Wait {wait}s before next command.\<close>\<close>
  | WaitShort rat                  \<comment> \<open>\<^verbatim>\<open>Wait {wait}s.\<close>\<close>
  | Usage string                   \<comment> \<open>\<^verbatim>\<open>Usage: <b>/instagram <link></b>\<close>\<close>
  | Downloading nat nat            \<comment> \<open>\<^verbatim>\<open>Downloading {i}/{len(data['urls'])}...\<close>\<close>
  | LargeFiles nat "json list"     \<comment> \<open>\<^verbatim>\<open>{uploaded} sent. Large files:\<close> and the numbered links\<close>
  | ErrorText json                 \<comment> \<open>\<^verbatim>\<open>Error: {data.get('error', ...)}\<close>\<close>
  | UnexpectedError                \<comment> \<open>\<^verbatim>\<open>Unexpected error.\<close>\<close>
  | ErrorOccurred                  \<comment> \<open>\<^verbatim>\<open>Error occurred.\<close>\<close>
  | TooLarge json                  \<comment> \<open>\<^verbatim>\<open>Too large. <a href='{dl}'>Download here</a>\<close>\<close>
  | InstagramMedia nat             \<comment> \<open>\<^verbatim>\<open>Instagram Media {i}\<close>\<close>
  | IgPrefix nat                   \<comment> \<open>\<^verbatim>\<open>ig_{i}\<close>\<close>
  | BoldTitle json                 \<comment> \<open>\<^verbatim>\<open><b>{video.get('title', 'TikTok Video')}</b>\<close>\<close>
  | Plain string
  | Spinner nat                    \<comment> \<open>\<^verbatim>\<open>{spinner[i % 10]} Processing...\<close>\<close>
  | AboutText int int int nat int rat

text \<open>Calls of the chat transport; a file name is the prefix and the extension.\<close>

datatype chat_op =
    ReplyText message
  | ReplyHtml message
  | EditText message
  | Delete
  | ReplyVideo bytes message "message \<times> string"
  | ReplyAudio bytes message "message \<times> string"
  | ReplyPhoto bytes message "message \<times> string"
  | ReplyPhotoRef json

text \<open>
  The two uses of \<^verbatim>\<open>requests.get\<close>: the extraction API (URL, query parameters,
  timeout 30) and a media file (URL, timeout 60, streamed).
\<close>

datatype http_request =
    ApiGet string "(string \<times> string) list"
  | MediaGet json

datatype log_level = Warning | Error

datatype event =
    Http http_request
  | Chat chat_op
  | Log log_level string exn
  | TaskCreate
  | TaskCancel

text \<open>
  A response of \<^verbatim>\<open>requests\<close>: what \<^verbatim>\<open>raise_for_status()\<close> raises, if anything, what
  \<^verbatim>\<open>.json()\<close> gives and what \<^verbatim>\<open>.content\<close> gives. The library decides all three.
\<close>

record response =
  raise_for_status :: "exn option"
  json_body :: "exn + json"
  content :: "exn + bytes"

text \<open>
  The configuration read from the environment, the clock, and the behaviour of the two
  outside parties. The number an outside call takes is the number of events before it, so
  that every call may be answered differently.
\<close>

record env =
  api_base_url :: string
  command_cooldown :: int
  admin_ids :: "int list"
  time_now :: rat
  http_get :: "nat \<Rightarrow> http_request \<Rightarrow> exn + response"
  chat :: "nat \<Rightarrow> chat_op \<Rightarrow> exn option"

text \<open>
  What a handler can change: the statistics, the invoking user's \<^verbatim>\<open>context.user_data\<close>,
  and the outside world, seen as the sequence of events so far.
\<close>

record world =
  stats :: statistics
  user_data :: "string \<rightharpoonup> rat"
  trace :: "event list"

section \<open>Rate limiter and statistics\<close>

definition is_admin :: "env \<Rightarrow> int \<Rightarrow> bool" where
  "is_admin e user_id = (user_id \<in> set (admin_ids e))"

text \<open>\<^verbatim>\<open>context.user_data.get('last_cmd', 0)\<close>\<close>

definition last_cmd :: "world \<Rightarrow> rat" where
  "last_cmd w = (case user_data w ''last_cmd'' of None \<Rightarrow> 0 | Some t \<Rightarrow> t)"

text \<open>The pair returned is \<^verbatim>\<open>(on_cd, wait)\<close>: on cooldown, and the seconds left.\<close>

definition check_cooldown :: "env \<Rightarrow> int \<Rightarrow> world \<Rightarrow> (bool \<times> rat) \<times> world" where
  "check_cooldown e user_id w =
     (if is_admin e user_id then ((False, 0), w)
      else
        let now = time_now e;
            last = last_cmd w
        in if now - last < of_int (command_cooldown e)
           then ((True, py_round1 (of_int (command_cooldown e) - (now - last))), w)
           else ((False, 0), w\<lparr>user_data := (user_data w)(''last_cmd'' \<mapsto> now)\<rparr>))"

definition track_command :: "int \<Rightarrow> string \<Rightarrow> bool \<Rightarrow> statistics \<Rightarrow> statistics" where
  "track_command user_id cmd success s =
     (let s1 = s\<lparr>total_requests := total_requests s + 1, users := insert user_id (users s)\<rparr>;
          s2 = (if success then s1\<lparr>successful_requests := successful_requests s1 + 1\<rparr>
                else s1\<lparr>failed_requests := failed_requests s1 + 1\<rparr>)
      in s2\<lparr>commands_used :=
           (commands_used s2)(cmd \<mapsto> (case commands_used s2 cmd of None \<Rightarrow> 0 | Some c \<Rightarrow> c) + 1)\<rparr>)"

text \<open>The statistics at start-up.\<close>

definition initial_stats :: "rat \<Rightarrow> statistics" where
  "initial_stats t =
     \<lparr>total_requests = 0, successful_requests = 0, failed_requests = 0,
      users = {}, commands_used = Map.empty, start_time = t\<rparr>"

text \<open>The rate computed by \<^verbatim>\<open>about\<close>.\<close>

definition success_rate :: "statistics \<Rightarrow> rat" where
  "success_rate s =
     of_int (successful_requests s) / of_int (max (total_requests s) 1) * 100"


section \<open>Effects\<close>

text \<open>
  A computation takes the world and returns the changed world with either the value it
  returns or the exception it raises.
\<close>

type_synonym 'a prog = "world \<Rightarrow> (exn + 'a) \<times> world"

definition ret :: "'a \<Rightarrow> 'a prog" where
  "ret a w = (Inr a, w)"

definition raise_exn :: "exn \<Rightarrow> 'a prog" where
  "raise_exn x w = (Inl x, w)"

definition lift :: "exn + 'a \<Rightarrow> 'a prog" where
  "lift r w = (r, w)"

definition and_then :: "'a prog \<Rightarrow> ('a \<Rightarrow> 'b prog) \<Rightarrow> 'b prog" where
  "and_then m f w = (case m w of (Inl x, w') \<Rightarrow> (Inl x, w') | (Inr a, w') \<Rightarrow> f a w')"

text \<open>\<^verbatim>\<open>try: m except Exception as e: h(e)\<close>\<close>

definition try_except :: "'a prog \<Rightarrow> (exn \<Rightarrow> 'a prog) \<Rightarrow> 'a prog" where
  "try_except m h w = (case m w of (Inl x, w') \<Rightarrow> h x w' | (Inr a, w') \<Rightarrow> (Inr a, w'))"

text \<open>\<^verbatim>\<open>try: m finally: f\<close>: \<open>f\<close> runs whatever \<open>m\<close> did, and then \<open>m\<close>'s outcome stands.\<close>

definition try_finally :: "'a prog \<Rightarrow> unit prog \<Rightarrow> 'a prog" where
  "try_finally m f w =
     (case m w of (r, w') \<Rightarrow>
        (case f w' of (Inl x, w'') \<Rightarrow> (Inl x, w'') | (Inr u, w'') \<Rightarrow> (r, w'')))"

definition emit :: "event \<Rightarrow> unit prog" where
  "emit ev w = (Inr (), w\<lparr>trace := trace w @ [ev]\<rparr>)"

definition chat_call :: "env \<Rightarrow> chat_op \<Rightarrow> unit prog" where
  "chat_call e op w =
     ((case chat e (length (trace w)) op of None \<Rightarrow> Inr () | Some x \<Rightarrow> Inl x),
      w\<lparr>trace := trace w @ [Chat op]\<rparr>)"

definition http_call :: "env \<Rightarrow> http_request \<Rightarrow> response prog" where
  "http_call e req w = (http_get e (length (trace w)) req, w\<lparr>trace := trace w @ [Http req]\<rparr>)"

definition status_check :: "response \<Rightarrow> exn + unit" where
  "status_check r = (case raise_for_status r of None \<Rightarrow> Inr () | Some x \<Rightarrow> Inl x)"

definition modify_stats :: "(statistics \<Rightarrow> statistics) \<Rightarrow> unit prog" where
  "modify_stats f w = (Inr (), w\<lparr>stats := f (stats w)\<rparr>)"

section \<open>Extraction client\<close>

fun dict_set :: "(string \<times> 'v) list \<Rightarrow> string \<Rightarrow> 'v \<Rightarrow> (string \<times> 'v) list" where
  "dict_set [] k v = [(k, v)]"
| "dict_set ((k', v') # kvs) k v =
     (if k' = k then (k, v) # kvs else (k', v') # dict_set kvs k v)"

text \<open>\<^verbatim>\<open>d.update(kwargs)\<close>\<close>

definition dict_update :: "(string \<times> 'v) list \<Rightarrow> (string \<times> 'v) list \<Rightarrow> (string \<times> 'v) list" where
  "dict_update d kwargs = foldl (\<lambda>acc kv. dict_set acc (fst kv) (snd kv)) d kwargs"

definition failure :: "string \<Rightarrow> json" where
  "failure msg = JObj [(''success'', JBool False), (''error'', JStr msg)]"

definition call_api :: "env \<Rightarrow> string \<Rightarrow> string \<Rightarrow> (string \<times> string) list \<Rightarrow> json prog" where
  "call_api e endpoint url kwargs =
     try_except
       (and_then
          (http_call e (ApiGet (api_base_url e @ ''/'' @ endpoint)
                               (dict_update [(''url'', url)] kwargs))) (\<lambda>response.
        and_then (lift (status_check response)) (\<lambda>_.
        lift (json_body response))))
       (\<lambda>x. and_then (emit (Log Error (''API Error ('' @ endpoint @ '')'') x)) (\<lambda>_.
             ret (failure (str x))))"

section \<open>Progress indicator\<close>

text \<open>
  What an \<^verbatim>\<open>await\<close> of the indicator's task may raise: an exception of the call, or the
  cancellation that \<^verbatim>\<open>task.cancel()\<close> delivers at the next \<^verbatim>\<open>await\<close>.
\<close>

datatype signal = Raised exn | Cancelled

text \<open>
  The loop has no exit of its own: it ends when one of its two awaits raises, and the bare
  \<^verbatim>\<open>except\<close> swallows whatever was raised. \<open>None\<close> is the loop running forever.
\<close>

partial_function (option) loading_animation ::
  "(nat \<Rightarrow> message \<Rightarrow> signal option) \<Rightarrow> (nat \<Rightarrow> signal option) \<Rightarrow> nat \<Rightarrow> (signal + unit) option"
where
  "loading_animation edit_text sleep i =
     (case edit_text i (Spinner (i mod 10)) of
        Some s \<Rightarrow> Some (Inr ())
      | None \<Rightarrow>
          (case sleep i of
             Some s \<Rightarrow> Some (Inr ())
           | None \<Rightarrow> loading_animation edit_text sleep (i + 1)))"

section \<open>Media relay\<close>

definition send_media_from_url ::
  "env \<Rightarrow> json \<Rightarrow> string \<Rightarrow> message \<Rightarrow> message \<Rightarrow> bool prog" where
  "send_media_from_url e file_url media_type caption filename_prefix =
     try_except
       (and_then (http_call e (MediaGet file_url)) (\<lambda>r.
        and_then (lift (status_check r)) (\<lambda>_.
        and_then (lift (content r)) (\<lambda>data.
          let ext = (if media_type = ''photo'' then ''.jpg''
                     else if media_type = ''video'' then ''.mp4'' else ''.mp3'');
              filename = (filename_prefix, ext)
          in if media_type = ''video'' \<and> 50 * 1024 * 1024 < length data
             then raise_exn (Exn ''ValueError'' ''Video >50MB'')
             else if media_type = ''photo'' \<and> 10 * 1024 * 1024 < length data
             then raise_exn (Exn ''ValueError'' ''Photo >10MB'')
             else and_then
                    (if media_type = ''video'' then chat_call e (ReplyVideo data caption filename)
                     else if media_type = ''audio'' then chat_call e (ReplyAudio data caption filename)
                     else if media_type = ''photo'' then chat_call e (ReplyPhoto data caption filename)
                     else ret ())
                    (\<lambda>_. ret True)))))
       (\<lambda>x. and_then (emit (Log Warning ''Send failed'' x)) (\<lambda>_. ret False))"

section \<open>Commands\<close>

definition about :: "env \<Rightarrow> unit prog" where
  "about e w =
     (let uptime = time_now e - start_time (stats w);
          days = \<lfloor>uptime / 86400\<rfloor>;
          seconds = \<lfloor>uptime\<rfloor> mod 86400;
          hours = seconds div 3600;
          rem = seconds mod 3600;
          minutes = rem div 60
      in chat_call e (ReplyHtml (AboutText days hours minutes (card (users (stats w)))
                                   (total_requests (stats w)) (success_rate (stats w)))) w)"

text \<open>
  The \<^verbatim>\<open>for\<close> loop of \<^verbatim>\<open>handle_instagram\<close> over \<^verbatim>\<open>enumerate(data["urls"], 1)\<close>:
  \<open>n\<close> is \<^verbatim>\<open>len(data['urls'])\<close>, \<open>i\<close> the running number, and the pair is
  \<^verbatim>\<open>(uploaded, fallback)\<close>.
\<close>

fun instagram_loop ::
  "env \<Rightarrow> nat \<Rightarrow> nat \<Rightarrow> json list \<Rightarrow> nat \<times> json list \<Rightarrow> (nat \<times> json list) prog" where
  "instagram_loop e n i [] acc = ret acc"
| "instagram_loop e n i (url # rest) acc =
     and_then (chat_call e (EditText (Downloading i n))) (\<lambda>_.
     and_then (lift (py_in ''mp4'' url)) (\<lambda>is_video.
     and_then (send_media_from_url e url (if is_video then ''video'' else ''photo'')
                 (InstagramMedia i) (IgPrefix i)) (\<lambda>sent.
     instagram_loop e n (i + 1) rest
       (if sent then (fst acc + 1, snd acc) else (fst acc, snd acc @ [url])))))"

text \<open>
  \<^verbatim>\<open>handle_instagram\<close> from the answer of the extraction client on (the body of its
  \<^verbatim>\<open>try\<close> after \<^verbatim>\<open>call_api\<close>). In \<^verbatim>\<open>a and b\<close>, \<open>b\<close> is evaluated only when \<open>a\<close> is true.
\<close>

definition instagram_relay :: "env \<Rightarrow> int \<Rightarrow> json \<Rightarrow> unit prog" where
  "instagram_relay e user_id data =
     and_then (lift (dict_get data ''success'' JNull)) (\<lambda>success.
     and_then (if truthy success then lift (dict_get data ''urls'' JNull) else ret success) (\<lambda>cond.
     if truthy cond then
       and_then (lift (subscript_key data ''urls'')) (\<lambda>urls.
       and_then (lift (py_iter urls)) (\<lambda>items.
       and_then (instagram_loop e (length items) 1 items (0, [])) (\<lambda>result.
       and_then (chat_call e Delete) (\<lambda>_.
       and_then (if snd result \<noteq> []
                 then chat_call e (ReplyHtml (LargeFiles (fst result) (snd result)))
                 else ret ()) (\<lambda>_.
       modify_stats (track_command user_id ''instagram'' True))))))
     else
       and_then (lift (dict_get data ''error'' (JStr ''Unknown''))) (\<lambda>err.
       and_then (chat_call e (EditText (ErrorText err))) (\<lambda>_.
       modify_stats (track_command user_id ''instagram'' False)))))"

definition handle_instagram :: "env \<Rightarrow> int \<Rightarrow> string list \<Rightarrow> unit prog" where
  "handle_instagram e user_id args w =
     (case check_cooldown e user_id w of
        ((on_cd, wait), w1) \<Rightarrow>
          if on_cd then chat_call e (ReplyText (WaitBeforeNext wait)) w1
          else
            (case args of
               [] \<Rightarrow> chat_call e (ReplyText (Usage ''instagram'')) w1
             | link # _ \<Rightarrow>
                 and_then (chat_call e (ReplyText Processing)) (\<lambda>_.
                 and_then (emit TaskCreate) (\<lambda>_.
                 try_finally
                   (try_except
                      (and_then (call_api e ''insta'' link []) (instagram_relay e user_id))
                      (\<lambda>x. and_then (chat_call e (EditText UnexpectedError)) (\<lambda>_.
                            emit (Log Error ''Instagram error'' x))))
                   (emit TaskCancel))) w1))"

text \<open>
  \<^verbatim>\<open>handle_tiktok\<close> from the answer of the extraction client on: first the branch taken
  when \<^verbatim>\<open>data.get("success") and data.get("data")\<close> is true, then the test itself with the
  \<^verbatim>\<open>else\<close> branch.
\<close>

definition tiktok_deliver :: "env \<Rightarrow> int \<Rightarrow> json \<Rightarrow> unit prog" where
  "tiktok_deliver e user_id data =
     and_then (lift (subscript_key data ''data'')) (\<lambda>records.
     and_then (lift (subscript_0 records)) (\<lambda>video.
     and_then (lift (subscript_key video ''downloadLinks'')) (\<lambda>links.
     and_then (lift (subscript_0 links)) (\<lambda>first_link.
     and_then (lift (subscript_key first_link ''link'')) (\<lambda>dl.
     and_then (lift (dict_get video ''title'' (JStr ''TikTok Video''))) (\<lambda>title.
     and_then (lift (dict_get video ''thumbnail'' JNull)) (\<lambda>thumbnail.
     and_then (if truthy thumbnail
               then and_then (lift (subscript_key video ''thumbnail'')) (\<lambda>t.
                    chat_call e (ReplyPhotoRef t))
               else ret ()) (\<lambda>_.
     and_then (send_media_from_url e dl ''video'' (BoldTitle title) (Plain ''tiktok'')) (\<lambda>sent.
     if sent
     then and_then (chat_call e Delete) (\<lambda>_.
          modify_stats (track_command user_id ''tiktok'' True))
     else and_then (chat_call e (EditText (TooLarge dl))) (\<lambda>_.
          modify_stats (track_command user_id ''tiktok'' False)))))))))))"

definition tiktok_relay :: "env \<Rightarrow> int \<Rightarrow> json \<Rightarrow> unit prog" where
  "tiktok_relay e user_id data =
     and_then (lift (dict_get data ''success'' JNull)) (\<lambda>success.
     and_then (if truthy success then lift (dict_get data ''data'' JNull) else ret success) (\<lambda>cond.
     if truthy cond then tiktok_deliver e user_id data
     else
       and_then (lift (dict_get data ''error'' (JStr ''Not found''))) (\<lambda>err.
       chat_call e (EditText (ErrorText err)))))"

definition handle_tiktok :: "env \<Rightarrow> int \<Rightarrow> string list \<Rightarrow> unit prog" where
  "handle_tiktok e user_id args w =
     (case check_cooldown e user_id w of
        ((on_cd, wait), w1) \<Rightarrow>
          if on_cd then chat_call e (ReplyText (WaitShort wait)) w1
          else
            (case args of
               [] \<Rightarrow> chat_call e (ReplyText (Usage ''tiktok'')) w1
             | link # _ \<Rightarrow>
                 and_then (chat_call e (ReplyText Processing)) (\<lambda>_.
                 and_then (emit TaskCreate) (\<lambda>_.
                 try_finally
                   (try_except
                      (and_then (call_api e ''tiktok'' link []) (tiktok_relay e user_id))
                      (\<lambda>x. and_then (chat_call e (EditText ErrorOccurred)) (\<lambda>_.
                            emit (Log Error [] x))))
                   (emit TaskCancel))) w1))"

section \<open>Observations on runs\<close>

text \<open>
  Predicates used to state what a computation leaves unchanged. \<open>handler_mark\<close> holds of
  the events that only the frame of a command handler produces: starting and cancelling
  the progress task, and the two generic error messages of the \<^verbatim>\<open>except\<close> blocks.
  \<open>new_events w w'\<close> are the events added between two worlds. A computation \<open>emits P\<close>
  when it only appends events satisfying \<open>P\<close> and leaves \<^verbatim>\<open>user_data\<close> alone; it
  \<open>tracks\<close> a command when it ends either by raising, the statistics unchanged, or
  normally after exactly one \<^verbatim>\<open>track_command\<close>; \<open>tracks_or_reports\<close> also allows a normal
  end with the statistics unchanged after the extraction error has been reported.
\<close>

fun handler_mark :: "event \<Rightarrow> bool" where
  "handler_mark TaskCreate = True"
| "handler_mark TaskCancel = True"
| "handler_mark (Chat (EditText UnexpectedError)) = True"
| "handler_mark (Chat (EditText ErrorOccurred)) = True"
| "handler_mark _ = False"

definition emits :: "(event \<Rightarrow> bool) \<Rightarrow> 'a prog \<Rightarrow> bool" where
  "emits P m =
     (\<forall>w. user_data (snd (m w)) = user_data w
          \<and> (\<exists>es. trace (snd (m w)) = trace w @ es \<and> list_all P es))"

definition keeps_stats :: "'a prog \<Rightarrow> bool" where
  "keeps_stats m = (\<forall>w. stats (snd (m w)) = stats w)"

definition tracks :: "int \<Rightarrow> string \<Rightarrow> unit prog \<Rightarrow> bool" where
  "tracks user_id cmd m =
     (\<forall>w. case fst (m w) of
            Inl x \<Rightarrow> stats (snd (m w)) = stats w
          | Inr u \<Rightarrow> (\<exists>b. stats (snd (m w)) = track_command user_id cmd b (stats w)))"

definition new_events :: "world \<Rightarrow> world \<Rightarrow> event list" where
  "new_events w w' = drop (length (trace w)) (trace w')"

definition tor_at :: "int \<Rightarrow> string \<Rightarrow> world \<Rightarrow> (exn + unit) \<times> world \<Rightarrow> bool" where
  "tor_at user_id cmd w r =
     (case fst r of
        Inl x \<Rightarrow> stats (snd r) = stats w
      | Inr u \<Rightarrow>
          (\<exists>b. stats (snd r) = track_command user_id cmd b (stats w))
          \<or> stats (snd r) = stats w
            \<and> (\<exists>err. Chat (EditText (ErrorText err)) \<in> set (new_events w (snd r))))"

definition tracks_or_reports :: "int \<Rightarrow> string \<Rightarrow> unit prog \<Rightarrow> bool" where
  "tracks_or_reports user_id cmd m = (\<forall>w. tor_at user_id cmd w (m w))"

text \<open>
  The events of one command invocation start the progress task once, cancel it once, and
  the cancellation is the last of them.
\<close>

definition task_cancelled_last :: "event list \<Rightarrow> bool" where
  "task_cancelled_last es =
     (count_list es TaskCreate = 1 \<and> count_list es TaskCancel = 1
      \<and> es \<noteq> [] \<and> last es = TaskCancel)"

text \<open>
  The URLs that the media relay was called with, in order: every call of
  \<^verbatim>\<open>send_media_from_url\<close> starts with the request for its URL, and nothing else requests a
  media URL.
\<close>

fun media_gets :: "event list \<Rightarrow> json list" where
  "media_gets [] = []"
| "media_gets (Http (MediaGet u) # es) = u # media_gets es"
| "media_gets (ev # es) = media_gets es"

text \<open>
  What the relay returns for each URL of the loop of \<^verbatim>\<open>handle_instagram\<close>, in order, each
  call made in the world that the calls before it left.
\<close>

fun relay_outcomes :: "env \<Rightarrow> nat \<Rightarrow> nat \<Rightarrow> json list \<Rightarrow> world \<Rightarrow> bool list" where
  "relay_outcomes e n i [] w = []"
| "relay_outcomes e n i (url # rest) w =
     (let w1 = snd (chat_call e (EditText (Downloading i n)) w);
          kind = (if py_in ''mp4'' url = Inr True then ''video'' else ''photo'');
          r = send_media_from_url e url kind (InstagramMedia i) (IgPrefix i) w1
      in (fst r = Inr True) # relay_outcomes e n (i + 1) rest (snd r))"

text \<open>
  The test \<^verbatim>\<open>data.get("success") and data.get(key)\<close> that both handlers apply to the answer
  of the extraction client.
\<close>

definition extracted :: "json \<Rightarrow> string \<Rightarrow> bool" where
  "extracted data key =
     (case dict_get data ''success'' JNull of
        Inl x \<Rightarrow> False
      | Inr s \<Rightarrow>
          truthy s \<and> (case dict_get data key JNull of Inl x \<Rightarrow> False | Inr c \<Rightarrow> truthy c))"

text \<open>
  The answer of the extraction client that a handler invoked in world \<open>w\<close> works with: the
  call is made after the \<^verbatim>\<open>Processing...\<close> reply and the start of the progress task.
\<close>

definition api_answer :: "env \<Rightarrow> string \<Rightarrow> string \<Rightarrow> world \<Rightarrow> json" where
  "api_answer e endpoint link w =
     (case fst (call_api e endpoint link []
                  (w\<lparr>trace := trace w @ [Chat (ReplyText Processing), TaskCreate]\<rparr>)) of
        Inl x \<Rightarrow> JNull
      | Inr data \<Rightarrow> data)"

text \<open>
  An invocation starts when it passes the rate limiter and the argument check and the chat
  transport accepts the \<^verbatim>\<open>Processing...\<close> reply of line 153: the handler then enters its
  \<^verbatim>\<open>try\<close> block.
\<close>

definition starts :: "env \<Rightarrow> int \<Rightarrow> string list \<Rightarrow> world \<Rightarrow> bool" where
  "starts e user_id args w =
     (\<not> fst (fst (check_cooldown e user_id w)) \<and> args \<noteq> []
      \<and> chat e (length (trace w)) (ReplyText Processing) = None)"

text \<open>
  What a computation started in world \<open>w\<close> has recorded when it ends in \<open>r\<close>: nothing when it
  raised, and otherwise one \<^verbatim>\<open>track_command\<close> with the given outcome. For the delivery of
  \<^verbatim>\<open>handle_tiktok\<close> the outcome is read off the events: a failure when the relay logged
  \<^verbatim>\<open>Send failed\<close>, and then the link was sent; a success otherwise, and then the video was
  sent and the status message deleted.
\<close>

definition records_at :: "int \<Rightarrow> string \<Rightarrow> bool \<Rightarrow> world \<Rightarrow> (exn + unit) \<times> world \<Rightarrow> bool" where
  "records_at user_id cmd b w r =
     (case fst r of
        Inl x \<Rightarrow> stats (snd r) = stats w
      | Inr v \<Rightarrow> stats (snd r) = track_command user_id cmd b (stats w))"

definition records :: "int \<Rightarrow> string \<Rightarrow> bool \<Rightarrow> unit prog \<Rightarrow> bool" where
  "records user_id cmd b m = (\<forall>w. records_at user_id cmd b w (m w))"

definition delivery_at :: "int \<Rightarrow> world \<Rightarrow> (exn + unit) \<times> world \<Rightarrow> bool" where
  "delivery_at user_id w r =
     (case fst r of
        Inl x \<Rightarrow> stats (snd r) = stats w
      | Inr v \<Rightarrow>
          if \<exists>x. Log Warning ''Send failed'' x \<in> set (new_events w (snd r))
          then stats (snd r) = track_command user_id ''tiktok'' False (stats w)
               \<and> (\<exists>dl. Chat (EditText (TooLarge dl)) \<in> set (new_events w (snd r)))
          else stats (snd r) = track_command user_id ''tiktok'' True (stats w)
               \<and> Chat Delete \<in> set (new_events w (snd r))
               \<and> (\<exists>d c f. Chat (ReplyVideo d c f) \<in> set (new_events w (snd r))))"

section \<open>Concrete inputs\<close>

text \<open>A media file one byte over 50 MiB.\<close>

definition big_payload :: bytes where
  "big_payload = replicate (50 * 1024 * 1024 + 1) 0"

definition big_response :: response where
  "big_response =
     \<lparr>raise_for_status = None,
      json_body = Inl (Exn ''JSONDecodeError'' ''Expecting value''),
      content = Inr big_payload\<rparr>"

text \<open>
  An environment in which the extraction API is unreachable for \<^verbatim>\<open>insta\<close>, answers 404
  for \<^verbatim>\<open>tiktok\<close> and answers with a body that is not JSON for every other endpoint, every
  media URL delivers \<open>big_payload\<close>, and the chat transport accepts every call. User 1 is
  the only administrator; the cooldown is 7 seconds and the clock reads 1003.26.
\<close>

definition env_a :: env where
  "env_a =
     \<lparr>api_base_url = ''https://api.example'',
      command_cooldown = 7,
      admin_ids = [1],
      time_now = 100326 / 100,
      http_get = (\<lambda>k req.
        case req of
          ApiGet u ps \<Rightarrow>
            if u = ''https://api.example/insta''
            then Inl (Exn ''ConnectionError'' ''unreachable'')
            else if u = ''https://api.example/tiktok''
            then Inr \<lparr>raise_for_status = Some (Exn ''HTTPError'' ''404 Client Error''),
                      json_body = Inr JNull, content = Inr []\<rparr>
            else Inr \<lparr>raise_for_status = None,
                      json_body = Inl (Exn ''JSONDecodeError'' ''Expecting value''),
                      content = Inr []\<rparr>
        | MediaGet u \<Rightarrow> Inr big_response),
      chat = (\<lambda>k c. None)\<rparr>"

text \<open>A user whose last accepted command was at time 1000.\<close>

definition world_a :: world where
  "world_a = \<lparr>stats = initial_stats 0, user_data = [''last_cmd'' \<mapsto> 1000], trace = []\<rparr>"

text \<open>A user who has not sent a command yet, and empty statistics.\<close>

definition world_b :: world where
  "world_b = \<lparr>stats = initial_stats 0, user_data = Map.empty, trace = []\<rparr>"

text \<open>Answers of the extraction API: two media URLs, and one video record with one link.\<close>

definition insta_answer :: json where
  "insta_answer =
     JObj [(''success'', JBool True),
           (''urls'', JList [JStr ''https://cdn.example/a.mp4'', JStr ''https://cdn.example/b.jpg''])]"

definition tiktok_answer :: json where
  "tiktok_answer =
     JObj [(''success'', JBool True),
           (''data'', JList [JObj [(''title'', JStr ''clip''),
                                   (''downloadLinks'',
                                    JList [JObj [(''link'', JStr ''https://cdn.example/t.mp4'')]])]])]"

text \<open>A media file of three bytes.\<close>

definition small_response :: response where
  "small_response =
     \<lparr>raise_for_status = None,
      json_body = Inl (Exn ''JSONDecodeError'' ''Expecting value''),
      content = Inr [1, 2, 3]\<rparr>"

text \<open>
  An environment in which the extraction API answers \<open>insta_answer\<close> for \<^verbatim>\<open>insta\<close> and
  \<open>tiktok_answer\<close> otherwise, every media URL but \<^verbatim>\<open>b.jpg\<close> delivers the small file,
  the fetch of \<^verbatim>\<open>b.jpg\<close> times out, and the chat transport accepts every call.
\<close>

definition env_b :: env where
  "env_b =
     \<lparr>api_base_url = ''https://api.example'',
      command_cooldown = 7,
      admin_ids = [1],
      time_now = 2000,
      http_get = (\<lambda>k req.
        case req of
          ApiGet u ps \<Rightarrow>
            Inr \<lparr>raise_for_status = None,
                 json_body = Inr (if u = ''https://api.example/insta''
                                  then insta_answer else tiktok_answer),
                 content = Inr []\<rparr>
        | MediaGet u \<Rightarrow>
            if u = JStr ''https://cdn.example/b.jpg''
            then Inl (Exn ''Timeout'' ''timed out'')
            else Inr small_response),
      chat = (\<lambda>k c. None)\<rparr>"

text \<open>
  The same environment, but the chat transport refuses every edit of the status message to
  \<^verbatim>\<open>Downloading i/n...\<close>.
\<close>

definition env_c :: env where
  "env_c =
     env_b\<lparr>chat := (\<lambda>k c.
        case c of
          EditText (Downloading i n) \<Rightarrow> Some (Exn ''BadRequest'' ''Message is not modified'')
        | _ \<Rightarrow> None)\<rparr>"

text \<open>
  The environment \<open>env_b\<close> with a chat transport that refuses every video, and with one that
  refuses every text reply.
\<close>

definition env_d :: env where
  "env_d =
     env_b\<lparr>chat := (\<lambda>k c.
        case c of
          ReplyVideo d cap f \<Rightarrow> Some (Exn ''BadRequest'' ''Request Entity Too Large'')
        | _ \<Rightarrow> None)\<rparr>"

definition env_e :: env where
  "env_e =
     env_b\<lparr>chat := (\<lambda>k c.
        case c of
          ReplyText m \<Rightarrow> Some (Exn ''Forbidden'' ''bot was blocked by the user'')
        | _ \<Rightarrow> None)\<rparr>"

section \<open>Properties\<close>

lemmas prog_defs = ret_def raise_exn_def lift_def and_then_def try_except_def try_finally_def
  emit_def chat_call_def http_call_def modify_stats_def status_check_def

subsection \<open>Rate limiter\<close>

lemma round_half_even_bounds: "\<bar>of_int (round_half_even y) - y\<bar> \<le> 1 / 2"
proof -
  have "of_int \<lfloor>y\<rfloor> \<le> y" and "y < of_int \<lfloor>y\<rfloor> + 1" by linarith+
  then show ?thesis
    unfolding round_half_even_def Let_def by (simp add: abs_if) linarith
qed

lemma py_round1_close: "\<bar>py_round1 x - x\<bar> \<le> 1 / 20"
proof -
  have "\<bar>of_int (round_half_even (x * 10)) - x * 10\<bar> \<le> 1 / 2"
    by (rule round_half_even_bounds)
  then show ?thesis
    unfolding py_round1_def by (simp add: abs_if field_simps split: if_splits)
qed

lemma floor_rat_numeral: "\<lfloor>numeral a / numeral b :: rat\<rfloor> = numeral a div numeral b"
  using floor_divide_of_int_eq[of "numeral a" "numeral b", where ?'a = rat] by simp

text \<open>
  C1. A user who is not an administrator and whose last command is less than the cooldown
  ago is refused (\<open>on_cd\<close> is true) with the wait \<open>W - elapsed\<close> rounded to one decimal
  place: the value is a whole number of tenths at most a twentieth away from
  \<open>W - elapsed\<close>. The world, and with it the user's \<^verbatim>\<open>last_cmd\<close>, is returned unchanged.
\<close>

theorem check_cooldown_blocked:
  assumes "\<not> is_admin e user_id"
    and "time_now e - last_cmd w < of_int (command_cooldown e)"
  shows "check_cooldown e user_id w =
           ((True, py_round1 (of_int (command_cooldown e) - (time_now e - last_cmd w))), w)
         \<and> (\<exists>k::int. snd (fst (check_cooldown e user_id w)) = of_int k / 10)
         \<and> \<bar>snd (fst (check_cooldown e user_id w))
              - (of_int (command_cooldown e) - (time_now e - last_cmd w))\<bar> \<le> 1 / 20"
  using assms py_round1_close[of "of_int (command_cooldown e) - (time_now e - last_cmd w)"]
  by (auto simp: check_cooldown_def Let_def py_round1_def)

theorem check_cooldown_blocked_witness:
  "\<not> is_admin env_a 5
   \<and> time_now env_a - last_cmd world_a < of_int (command_cooldown env_a)
   \<and> check_cooldown env_a 5 world_a = ((True, 37 / 10), world_a)"
proof -
  have h1: "\<not> is_admin env_a 5" by (simp add: is_admin_def env_a_def)
  have h2: "time_now env_a - last_cmd world_a < of_int (command_cooldown env_a)"
    by (simp add: env_a_def world_a_def last_cmd_def)
  have r: "py_round1 (of_int (command_cooldown env_a) - (time_now env_a - last_cmd world_a)) = 37 / 10"
    by (simp add: env_a_def world_a_def last_cmd_def py_round1_def round_half_even_def Let_def
        floor_rat_numeral)
  from check_cooldown_blocked[OF h1 h2] h1 h2 r show ?thesis by simp
qed

text \<open>
  C8. For an administrator the check answers \<open>(False, 0)\<close>, not on cooldown and nothing to
  wait, whatever the clock and the stored timestamp are, and returns the world unchanged.
\<close>

theorem check_cooldown_admin:
  "is_admin e user_id \<Longrightarrow> check_cooldown e user_id w = ((False, 0), w)"
  by (simp add: check_cooldown_def)

theorem check_cooldown_admin_witness:
  "is_admin env_a 1 \<and> check_cooldown env_a 1 world_a = ((False, 0), world_a)"
proof -
  have h: "is_admin env_a 1" by (simp add: is_admin_def env_a_def)
  from check_cooldown_admin[OF h, of world_a] h show ?thesis by simp
qed

subsection \<open>Statistics\<close>

lemma track_command_counts:
  "total_requests (track_command u c b s) = total_requests s + 1"
  "successful_requests (track_command u c b s) = successful_requests s + (if b then 1 else 0)"
  "failed_requests (track_command u c b s) = failed_requests s + (if b then 0 else 1)"
  by (simp_all add: track_command_def Let_def)




subsection \<open>Extraction client and media relay\<close>

text \<open>
  C6. The extraction client never raises: it always returns a value. When the request
  raises (a transport error), when \<^verbatim>\<open>raise_for_status\<close> raises (an error status) or when
  decoding the body raises, with exception \<open>x\<close>, the value returned is the failure record
  whose error text is \<^verbatim>\<open>str(x)\<close>.
\<close>

theorem call_api_failure:
  "(\<exists>j. fst (call_api e endpoint url kwargs w) = Inr j)
   \<and> ((http_get e (length (trace w))
         (ApiGet (api_base_url e @ ''/'' @ endpoint) (dict_update [(''url'', url)] kwargs)) = Inl x
       \<or> (\<exists>r. http_get e (length (trace w))
                (ApiGet (api_base_url e @ ''/'' @ endpoint) (dict_update [(''url'', url)] kwargs)) = Inr r
              \<and> (raise_for_status r = Some x \<or> raise_for_status r = None \<and> json_body r = Inl x)))
      \<longrightarrow> fst (call_api e endpoint url kwargs w) = Inr (failure (str x)))"
  by (auto simp: call_api_def prog_defs split: sum.splits option.splits)

theorem call_api_failure_witness:
  "fst (call_api env_a ''insta'' ''https://instagram.example/p/1'' [] world_a)
     = Inr (failure ''unreachable'')
   \<and> fst (call_api env_a ''tiktok'' ''https://tiktok.example/v/1'' [] world_a)
     = Inr (failure ''404 Client Error'')
   \<and> fst (call_api env_a ''x'' ''https://x.example/s/1'' [] world_a)
     = Inr (failure ''Expecting value'')"
proof -
  have 1: "fst (call_api env_a ''insta'' ''https://instagram.example/p/1'' [] world_a)
             = Inr (failure ''unreachable'')"
    using call_api_failure[of env_a "''insta''" "''https://instagram.example/p/1''" "[]" world_a
        "Exn ''ConnectionError'' ''unreachable''"]
    by (simp add: env_a_def world_a_def dict_update_def)
  have 2: "fst (call_api env_a ''tiktok'' ''https://tiktok.example/v/1'' [] world_a)
             = Inr (failure ''404 Client Error'')"
    using call_api_failure[of env_a "''tiktok''" "''https://tiktok.example/v/1''" "[]" world_a
        "Exn ''HTTPError'' ''404 Client Error''"]
    by (simp add: env_a_def world_a_def dict_update_def)
  have 3: "fst (call_api env_a ''x'' ''https://x.example/s/1'' [] world_a)
             = Inr (failure ''Expecting value'')"
    using call_api_failure[of env_a "''x''" "''https://x.example/s/1''" "[]" world_a
        "Exn ''JSONDecodeError'' ''Expecting value''"]
    by (simp add: env_a_def world_a_def dict_update_def)
  from 1 2 3 show ?thesis by simp
qed

text \<open>
  C2. When the fetch of a media file succeeds and the content is a video of more than
  50 MiB or a photo of more than 10 MiB, the relay returns \<^verbatim>\<open>False\<close> (the caller defers the
  item as a link): it raises nothing, and after the fetch it only logs the failure, so
  nothing is sent to the chat.
\<close>

theorem oversize_is_deferred:
  assumes "http_get e (length (trace w)) (MediaGet file_url) = Inr r"
    and "raise_for_status r = None"
    and "content r = Inr data"
    and "media_type = ''video'' \<and> 50 * 1024 * 1024 < length data
         \<or> media_type = ''photo'' \<and> 10 * 1024 * 1024 < length data"
  shows "send_media_from_url e file_url media_type caption filename_prefix w =
           (Inr False,
            w\<lparr>trace := trace w @
               [Http (MediaGet file_url),
                Log Warning ''Send failed''
                  (Exn ''ValueError''
                     (if media_type = ''video'' then ''Video >50MB'' else ''Photo >10MB''))]\<rparr>)"
  using assms by (auto simp: send_media_from_url_def prog_defs Let_def)

theorem oversize_is_deferred_witness:
  "50 * 1024 * 1024 < length big_payload
   \<and> fst (send_media_from_url env_a (JStr ''https://cdn.example/a.mp4'') ''video''
            (InstagramMedia 1) (IgPrefix 1) world_a) = Inr False
   \<and> fst (send_media_from_url env_a (JStr ''https://cdn.example/a.jpg'') ''photo''
            (InstagramMedia 1) (IgPrefix 1) world_a) = Inr False"
proof -
  have len: "length big_payload = 50 * 1024 * 1024 + 1" by (simp add: big_payload_def)
  have g: "http_get env_a (length (trace world_a)) (MediaGet u) = Inr big_response" for u
    by (simp add: env_a_def)
  have s: "raise_for_status big_response = None" and c: "content big_response = Inr big_payload"
    by (simp_all add: big_response_def)
  have v: "''video'' = ''video'' \<and> 50 * 1024 * 1024 < length big_payload
           \<or> ''video'' = ''photo'' \<and> 10 * 1024 * 1024 < length big_payload"
    by (simp add: len)
  have p: "''photo'' = ''video'' \<and> 50 * 1024 * 1024 < length big_payload
           \<or> ''photo'' = ''photo'' \<and> 10 * 1024 * 1024 < length big_payload"
    by (simp add: len)
  show ?thesis
    using oversize_is_deferred[OF g s c v] oversize_is_deferred[OF g s c p] len by simp
qed

text \<open>
  C10. For an audio item no size is tested: the relay returns \<^verbatim>\<open>True\<close> exactly when the
  fetch succeeds (the request, the status check and reading the content) and the chat
  transport accepts the audio, whatever the length of the content.
\<close>

theorem audio_no_size_limit:
  "fst (send_media_from_url e file_url ''audio'' caption filename_prefix w) =
     Inr (case http_get e (length (trace w)) (MediaGet file_url) of
            Inl x \<Rightarrow> False
          | Inr r \<Rightarrow>
              (case raise_for_status r of
                 Some x \<Rightarrow> False
               | None \<Rightarrow>
                   (case content r of
                      Inl x \<Rightarrow> False
                    | Inr data \<Rightarrow>
                        chat e (Suc (length (trace w)))
                          (ReplyAudio data caption (filename_prefix, ''.mp3'')) = None)))"
  by (auto simp: send_media_from_url_def prog_defs Let_def split: sum.splits option.splits)

theorem audio_no_size_limit_witness:
  "50 * 1024 * 1024 < length big_payload
   \<and> fst (send_media_from_url env_a (JStr ''https://cdn.example/a.mp3'') ''audio''
            (Plain ''song'') (Plain ''track'') world_a) = Inr True"
proof -
  have len: "length big_payload = 50 * 1024 * 1024 + 1" by (simp add: big_payload_def)
  have g: "http_get env_a (length (trace world_a)) (MediaGet u) = Inr big_response" for u
    by (simp add: env_a_def)
  have a: "chat env_a k c = None" for k c by (simp add: env_a_def)
  show ?thesis
    using audio_no_size_limit[of env_a "JStr ''https://cdn.example/a.mp3''" "Plain ''song''"
        "Plain ''track''" world_a] len
    by (simp add: g a big_response_def)
qed

subsection \<open>Frames of the handlers\<close>

lemma emits_ret: "emits P (ret a)" and emits_raise: "emits P (raise_exn x)"
  and emits_lift: "emits P (lift r)" and emits_modify: "emits P (modify_stats f)"
  by (simp_all add: emits_def prog_defs)

lemma emits_emit: "P ev \<Longrightarrow> emits P (emit ev)"
  by (simp add: emits_def prog_defs)

lemma emits_chat: "P (Chat c) \<Longrightarrow> emits P (chat_call e c)"
  by (simp add: emits_def prog_defs)

lemma emits_http: "P (Http req) \<Longrightarrow> emits P (http_call e req)"
  by (simp add: emits_def prog_defs)

lemma emits_and_then:
  assumes "emits P m" and "\<And>a. emits P (f a)"
  shows "emits P (and_then m f)"
  unfolding emits_def
proof (intro allI)
  fix w
  obtain r w1 where m: "m w = (r, w1)" by (cases "m w")
  from assms(1) m obtain es1 where 1: "user_data w1 = user_data w" "trace w1 = trace w @ es1" "list_all P es1"
    unfolding emits_def by (metis snd_conv)
  show "user_data (snd (and_then m f w)) = user_data w \<and>
        (\<exists>es. trace (snd (and_then m f w)) = trace w @ es \<and> list_all P es)"
  proof (cases r)
    case (Inl x)
    with m 1 show ?thesis by (auto simp: and_then_def)
  next
    case (Inr a)
    from assms(2)[of a] obtain es2 where
      2: "user_data (snd (f a w1)) = user_data w1" "trace (snd (f a w1)) = trace w1 @ es2" "list_all P es2"
      unfolding emits_def by blast
    with m 1 Inr show ?thesis by (auto simp: and_then_def)
  qed
qed

lemma emits_try_except:
  assumes "emits P m" and "\<And>x. emits P (h x)"
  shows "emits P (try_except m h)"
  unfolding emits_def
proof (intro allI)
  fix w
  obtain r w1 where m: "m w = (r, w1)" by (cases "m w")
  from assms(1) m obtain es1 where 1: "user_data w1 = user_data w" "trace w1 = trace w @ es1" "list_all P es1"
    unfolding emits_def by (metis snd_conv)
  show "user_data (snd (try_except m h w)) = user_data w \<and>
        (\<exists>es. trace (snd (try_except m h w)) = trace w @ es \<and> list_all P es)"
  proof (cases r)
    case (Inr a)
    with m 1 show ?thesis by (auto simp: try_except_def)
  next
    case (Inl x)
    from assms(2)[of x] obtain es2 where
      2: "user_data (snd (h x w1)) = user_data w1" "trace (snd (h x w1)) = trace w1 @ es2" "list_all P es2"
      unfolding emits_def by blast
    with m 1 Inl show ?thesis by (auto simp: try_except_def)
  qed
qed

lemma emits_if: "(c \<Longrightarrow> emits P a) \<Longrightarrow> (\<not> c \<Longrightarrow> emits P b) \<Longrightarrow> emits P (if c then a else b)"
  by simp

lemmas emits_intros = emits_ret emits_raise emits_lift emits_modify emits_emit emits_chat
  emits_http emits_and_then emits_try_except emits_if

lemma emits_call_api: "P (Http (ApiGet (api_base_url e @ ''/'' @ endpoint) (dict_update [(''url'', url)] kwargs)))
   \<Longrightarrow> (\<And>x. P (Log Error (''API Error ('' @ endpoint @ '')'') x)) \<Longrightarrow> emits P (call_api e endpoint url kwargs)"
  unfolding call_api_def by (intro emits_intros)

lemma emits_send_media:
  assumes "\<And>ev. \<not> handler_mark ev \<Longrightarrow> P ev"
  shows "emits P (send_media_from_url e u k c p)"
  unfolding send_media_from_url_def Let_def by (intro emits_intros assms) simp_all

lemma emits_instagram_loop:
  assumes "\<And>ev. \<not> handler_mark ev \<Longrightarrow> P ev"
  shows "emits P (instagram_loop e n i items acc)"
proof (induction items arbitrary: i acc)
  case Nil
  show ?case by (simp add: emits_ret)
next
  case (Cons url rest)
  show ?case
    unfolding instagram_loop.simps
    by (intro emits_intros emits_send_media assms Cons.IH) simp_all
qed

lemma emits_instagram_relay:
  assumes "\<And>ev. \<not> handler_mark ev \<Longrightarrow> P ev"
  shows "emits P (instagram_relay e user_id data)"
  unfolding instagram_relay_def
  by (intro emits_intros emits_instagram_loop assms) simp_all

lemma emits_tiktok_relay:
  assumes "\<And>ev. \<not> handler_mark ev \<Longrightarrow> P ev"
  shows "emits P (tiktok_relay e user_id data)"
  unfolding tiktok_relay_def tiktok_deliver_def
  by (intro emits_intros emits_send_media assms) simp_all

lemma keeps_ret: "keeps_stats (ret a)" and keeps_raise: "keeps_stats (raise_exn x)"
  and keeps_lift: "keeps_stats (lift r)" and keeps_emit: "keeps_stats (emit ev)"
  and keeps_chat: "keeps_stats (chat_call e c)" and keeps_http: "keeps_stats (http_call e req)"
  by (simp_all add: keeps_stats_def prog_defs)

lemma keeps_and_then:
  assumes "keeps_stats m" and "\<And>a. keeps_stats (f a)"
  shows "keeps_stats (and_then m f)"
  unfolding keeps_stats_def
proof (intro allI)
  fix w
  obtain r w1 where m: "m w = (r, w1)" by (cases "m w")
  with assms(1) have 1: "stats w1 = stats w" unfolding keeps_stats_def by (metis snd_conv)
  show "stats (snd (and_then m f w)) = stats w"
    using m 1 assms(2) by (cases r) (auto simp: and_then_def keeps_stats_def)
qed

lemma keeps_try_except:
  assumes "keeps_stats m" and "\<And>x. keeps_stats (h x)"
  shows "keeps_stats (try_except m h)"
  unfolding keeps_stats_def
proof (intro allI)
  fix w
  obtain r w1 where m: "m w = (r, w1)" by (cases "m w")
  with assms(1) have 1: "stats w1 = stats w" unfolding keeps_stats_def by (metis snd_conv)
  show "stats (snd (try_except m h w)) = stats w"
    using m 1 assms(2) by (cases r) (auto simp: try_except_def keeps_stats_def)
qed

lemma keeps_if:
  "(c \<Longrightarrow> keeps_stats a) \<Longrightarrow> (\<not> c \<Longrightarrow> keeps_stats b) \<Longrightarrow> keeps_stats (if c then a else b)"
  by simp

lemmas keeps_intros = keeps_ret keeps_raise keeps_lift keeps_emit keeps_chat keeps_http
  keeps_and_then keeps_try_except keeps_if

lemma keeps_call_api: "keeps_stats (call_api e endpoint url kwargs)"
  unfolding call_api_def by (intro keeps_intros)

lemma keeps_send_media: "keeps_stats (send_media_from_url e u k c p)"
  unfolding send_media_from_url_def Let_def by (intro keeps_intros)

lemma keeps_instagram_loop: "keeps_stats (instagram_loop e n i items acc)"
proof (induction items arbitrary: i acc)
  case Nil
  show ?case by (simp add: keeps_ret)
next
  case (Cons url rest)
  show ?case
    unfolding instagram_loop.simps by (intro keeps_intros keeps_send_media Cons.IH)
qed

lemma tracks_modify: "tracks user_id cmd (modify_stats (track_command user_id cmd b))"
  by (auto simp: tracks_def prog_defs)

lemma tracks_and_then:
  assumes "keeps_stats m" and "\<And>a. tracks user_id cmd (f a)"
  shows "tracks user_id cmd (and_then m f)"
  unfolding tracks_def
proof (intro allI)
  fix w
  obtain r w1 where m: "m w = (r, w1)" by (cases "m w")
  with assms(1) have 1: "stats w1 = stats w" unfolding keeps_stats_def by (metis snd_conv)
  show "case fst (and_then m f w) of
          Inl x \<Rightarrow> stats (snd (and_then m f w)) = stats w
        | Inr u \<Rightarrow> \<exists>b. stats (snd (and_then m f w)) = track_command user_id cmd b (stats w)"
  proof (cases r)
    case (Inl x)
    with m 1 show ?thesis by (simp add: and_then_def)
  next
    case (Inr a)
    with m have eq: "and_then m f w = f a w1" by (simp add: and_then_def)
    from assms(2)[of a] 1 show ?thesis unfolding eq tracks_def by metis
  qed
qed

lemma tracks_if:
  "(c \<Longrightarrow> tracks u k a) \<Longrightarrow> (\<not> c \<Longrightarrow> tracks u k b) \<Longrightarrow> tracks u k (if c then a else b)"
  by simp

lemmas tracks_intros = tracks_modify tracks_and_then tracks_if

lemma tracks_instagram_relay: "tracks user_id ''instagram'' (instagram_relay e user_id data)"
  unfolding instagram_relay_def
  by (intro tracks_intros keeps_intros keeps_instagram_loop)

lemma tracks_instagram_try:
  "tracks user_id ''instagram'' (and_then (call_api e ''insta'' link []) (instagram_relay e user_id))"
  by (intro tracks_and_then keeps_call_api tracks_instagram_relay)

lemma tracks_tiktok_deliver: "tracks user_id ''tiktok'' (tiktok_deliver e user_id data)"
  unfolding tiktok_deliver_def
  by (intro tracks_intros keeps_intros keeps_send_media)

lemma check_cooldown_frame:
  "stats (snd (check_cooldown e u w)) = stats w" "trace (snd (check_cooldown e u w)) = trace w"
  by (simp_all add: check_cooldown_def Let_def)

lemma guarded_shape:
  fixes e :: env and msg :: message and lbl :: string and body :: "unit prog"
  assumes em: "emits (\<lambda>ev. \<not> handler_mark ev) body"
  defines "w2 \<equiv> \<lambda>w. w\<lparr>trace := trace w @ [Chat (ReplyText Processing), TaskCreate]\<rparr>"
  defines "prog \<equiv>
     and_then (chat_call e (ReplyText Processing)) (\<lambda>_.
     and_then (emit TaskCreate) (\<lambda>_.
     try_finally
       (try_except body
          (\<lambda>x. and_then (chat_call e (EditText msg)) (\<lambda>_. emit (Log Error lbl x))))
       (emit TaskCancel)))"
  shows "user_data (snd (prog w)) = user_data w \<and>
     (trace (snd (prog w)) = trace w @ [Chat (ReplyText Processing)] \<and> stats (snd (prog w)) = stats w
      \<or> (\<exists>es tl. trace (snd (prog w))
                    = trace w @ [Chat (ReplyText Processing), TaskCreate] @ es @ tl @ [TaskCancel]
            \<and> trace (snd (body (w2 w))) = trace (w2 w) @ es
            \<and> list_all (\<lambda>ev. \<not> handler_mark ev) es
            \<and> stats (snd (prog w)) = stats (snd (body (w2 w)))
            \<and> (case fst (body (w2 w)) of
                  Inr u \<Rightarrow> tl = []
                | Inl x \<Rightarrow> tl = [Chat (EditText msg)] \<or> tl = [Chat (EditText msg), Log Error lbl x])))"
proof -
  obtain r w3 where b: "body (w2 w) = (r, w3)" by (cases "body (w2 w)")
  from em b obtain es where es: "user_data w3 = user_data (w2 w)" "trace w3 = trace (w2 w) @ es"
      "list_all (\<lambda>ev. \<not> handler_mark ev) es"
    unfolding emits_def by (metis snd_conv)
  have w2w: "w\<lparr>trace := trace w @ [Chat (ReplyText Processing), TaskCreate]\<rparr> = w2 w"
    by (simp add: w2_def)
  show ?thesis
  proof (cases "chat e (length (trace w)) (ReplyText Processing)")
    case (Some x)
    then show ?thesis by (simp add: prog_def prog_defs)
  next
    case None
    show ?thesis
    proof (cases r)
      case (Inr u)
      with None b es show ?thesis
        by (simp add: prog_def prog_defs w2w) (simp add: w2_def)
    next
      case (Inl x)
      with None b es show ?thesis
        by (cases "chat e (length (trace w3)) (EditText msg)")
           (simp_all add: prog_def prog_defs w2w, simp_all add: w2_def)
    qed
  qed
qed

lemma anim_returns:
  "edit_text (i + d) (Spinner ((i + d) mod 10)) \<noteq> None \<or> sleep (i + d) \<noteq> None
   \<Longrightarrow> loading_animation edit_text sleep i = Some (Inr ())"
proof (induction d arbitrary: i)
  case 0
  then show ?case
    by (subst loading_animation.simps) (auto split: option.splits)
next
  case (Suc d)
  from Suc.prems have "edit_text (Suc i + d) (Spinner ((Suc i + d) mod 10)) \<noteq> None
                       \<or> sleep (Suc i + d) \<noteq> None" by simp
  from Suc.IH[OF this] show ?case
    by (subst loading_animation.simps) (auto split: option.splits)
qed

lemma tiktok_relay_unfold:
  "tiktok_relay e u data w =
     (case dict_get data ''success'' JNull of
        Inl x \<Rightarrow> (Inl x, w)
      | Inr s \<Rightarrow>
          (case (if truthy s then dict_get data ''data'' JNull else Inr s) of
             Inl x \<Rightarrow> (Inl x, w)
           | Inr c \<Rightarrow>
               if truthy c then tiktok_deliver e u data w
               else (case dict_get data ''error'' (JStr ''Not found'') of
                       Inl x \<Rightarrow> (Inl x, w)
                     | Inr err \<Rightarrow> chat_call e (EditText (ErrorText err)) w)))"
  by (simp add: tiktok_relay_def and_then_def lift_def ret_def split: sum.splits)

lemma tor_at_tracks:
  assumes "tracks user_id cmd m"
  shows "tor_at user_id cmd w (m w)"
proof -
  from assms have T: "case fst (m w) of
      Inl x \<Rightarrow> stats (snd (m w)) = stats w
    | Inr u \<Rightarrow> \<exists>b. stats (snd (m w)) = track_command user_id cmd b (stats w)"
    unfolding tracks_def by (rule spec)
  show ?thesis
  proof (cases "fst (m w)")
    case (Inl x)
    with T show ?thesis by (simp add: tor_at_def)
  next
    case (Inr u)
    with T show ?thesis by (simp add: tor_at_def)
  qed
qed

lemma tor_at_raise: "tor_at user_id cmd w (Inl x, w)"
  by (simp add: tor_at_def)

lemma tor_at_report: "tor_at user_id cmd w (chat_call e (EditText (ErrorText err)) w)"
  by (cases "chat e (length (trace w)) (EditText (ErrorText err))")
     (simp_all add: tor_at_def chat_call_def new_events_def)

lemma tiktok_relay_cases:
  "tiktok_relay e u data w = tiktok_deliver e u data w
   \<or> (\<exists>x. tiktok_relay e u data w = (Inl x, w))
   \<or> (\<exists>err. tiktok_relay e u data w = chat_call e (EditText (ErrorText err)) w)"
  unfolding tiktok_relay_unfold
  by (cases "dict_get data ''success'' JNull"; cases "dict_get data ''data'' JNull";
      cases "dict_get data ''error'' (JStr ''Not found'')")
     (simp_all, blast+)

lemma tor_tiktok_relay: "tracks_or_reports user_id ''tiktok'' (tiktok_relay e user_id data)"
  unfolding tracks_or_reports_def
proof (intro allI)
  fix w
  from tiktok_relay_cases[of e user_id data w]
  show "tor_at user_id ''tiktok'' w (tiktok_relay e user_id data w)"
  proof (elim disjE exE)
    assume "tiktok_relay e user_id data w = tiktok_deliver e user_id data w"
    then show ?thesis using tor_at_tracks[OF tracks_tiktok_deliver] by simp
  next
    fix x assume "tiktok_relay e user_id data w = (Inl x, w)"
    then show ?thesis by (simp add: tor_at_raise)
  next
    fix err assume "tiktok_relay e user_id data w = chat_call e (EditText (ErrorText err)) w"
    then show ?thesis by (simp add: tor_at_report)
  qed
qed

lemma tor_and_then:
  assumes "keeps_stats m" and "emits P m" and "\<And>a. tracks_or_reports user_id cmd (f a)"
  shows "tracks_or_reports user_id cmd (and_then m f)"
  unfolding tracks_or_reports_def
proof (intro allI)
  fix w
  obtain r w1 where m: "m w = (r, w1)" by (cases "m w")
  with assms(1) have 1: "stats w1 = stats w" unfolding keeps_stats_def by (metis snd_conv)
  from assms(2) m have 2: "length (trace w) \<le> length (trace w1)"
    unfolding emits_def by (metis snd_conv length_append le_add1)
  show "tor_at user_id cmd w (and_then m f w)"
  proof (cases r)
    case (Inl x)
    with m 1 show ?thesis by (simp add: and_then_def tor_at_def)
  next
    case (Inr a)
    with m have eq: "and_then m f w = f a w1" by (simp add: and_then_def)
    have sub: "set (new_events w1 w'') \<subseteq> set (new_events w w'')" for w''
      unfolding new_events_def using 2 by (rule set_drop_subset_set_drop)
    from assms(3)[of a] have T: "tor_at user_id cmd w1 (f a w1)"
      unfolding tracks_or_reports_def by (rule spec)
    show ?thesis
    proof (cases "fst (f a w1)")
      case (Inl x)
      with T 1 show ?thesis unfolding eq by (simp add: tor_at_def)
    next
      case (Inr u)
      with T 1 sub[of "snd (f a w1)"] show ?thesis unfolding eq
        by (simp add: tor_at_def) blast
    qed
  qed
qed

lemma emits_instagram_try:
  "emits (\<lambda>ev. \<not> handler_mark ev) (and_then (call_api e ''insta'' link []) (instagram_relay e u))"
  by (intro emits_and_then emits_call_api emits_instagram_relay) simp_all

lemma emits_tiktok_try:
  "emits (\<lambda>ev. \<not> handler_mark ev) (and_then (call_api e ''tiktok'' link []) (tiktok_relay e u))"
  by (intro emits_and_then emits_call_api emits_tiktok_relay) simp_all

lemma tor_tiktok_try:
  "tracks_or_reports u ''tiktok'' (and_then (call_api e ''tiktok'' link []) (tiktok_relay e u))"
  by (rule tor_and_then[OF keeps_call_api emits_call_api[where P = "\<lambda>ev. True"] tor_tiktok_relay])
     simp_all

lemma check_cooldown_user_data:
  "user_data (snd (check_cooldown e u w)) =
     (if is_admin e u \<or> time_now e - last_cmd w < of_int (command_cooldown e)
      then user_data w else (user_data w)(''last_cmd'' \<mapsto> time_now e))"
  by (simp add: check_cooldown_def Let_def)

lemma handle_instagram_shape:
  fixes e u args w
  defines "w' \<equiv> snd (handle_instagram e u args w)"
  shows "user_data w' = user_data (snd (check_cooldown e u w)) \<and>
    ((\<exists>c. trace w' = trace w @ [Chat (ReplyText c)] \<and> stats w' = stats w)
     \<or> (\<exists>es tl. trace w' = trace w @ [Chat (ReplyText Processing), TaskCreate] @ es @ tl @ [TaskCancel]
          \<and> list_all (\<lambda>ev. \<not> handler_mark ev) es
          \<and> (tl = [] \<and> (\<exists>b. stats w' = track_command u ''instagram'' b (stats w))
             \<or> (\<exists>x. tl = [Chat (EditText UnexpectedError)]
                    \<or> tl = [Chat (EditText UnexpectedError), Log Error ''Instagram error'' x])
               \<and> stats w' = stats w)))"
proof -
  obtain on_cd wait w1 where cc: "check_cooldown e u w = ((on_cd, wait), w1)"
    by (metis prod.exhaust)
  have f: "stats w1 = stats w" "trace w1 = trace w"
    using check_cooldown_frame[of e u w] cc by simp_all
  show ?thesis
  proof (cases "on_cd \<or> args = []")
    case True
    then show ?thesis
      using cc f by (cases args) (auto simp: w'_def handle_instagram_def chat_call_def)
  next
    case False
    then obtain link rest where args: "args = link # rest" by (cases args) auto
    define body where "body = and_then (call_api e ''insta'' link []) (instagram_relay e u)"
    define w2 where "w2 = w1\<lparr>trace := trace w1 @ [Chat (ReplyText Processing), TaskCreate]\<rparr>"
    define prog where "prog =
       and_then (chat_call e (ReplyText Processing)) (\<lambda>_.
       and_then (emit TaskCreate) (\<lambda>_.
       try_finally
         (try_except body
            (\<lambda>x. and_then (chat_call e (EditText UnexpectedError)) (\<lambda>_.
                  emit (Log Error ''Instagram error'' x))))
         (emit TaskCancel)))"
    define W where "W = snd (prog w1)"
    define B where "B = body w2"
    have h: "w' = W"
      using cc False args by (simp add: w'_def W_def prog_def body_def handle_instagram_def)
    have ud: "user_data (snd (check_cooldown e u w)) = user_data w1" using cc by simp
    have T: "case fst B of
        Inl x \<Rightarrow> stats (snd B) = stats w
      | Inr v \<Rightarrow> \<exists>b. stats (snd B) = track_command u ''instagram'' b (stats w)"
    proof -
      have "case fst (body w2) of
          Inl x \<Rightarrow> stats (snd (body w2)) = stats w2
        | Inr v \<Rightarrow> \<exists>b. stats (snd (body w2)) = track_command u ''instagram'' b (stats w2)"
        using tracks_instagram_try[of u e link] unfolding tracks_def body_def by (rule spec)
      then show ?thesis
        unfolding B_def by (cases "fst (body w2)") (simp_all add: w2_def f)
    qed
    have em: "emits (\<lambda>ev. \<not> handler_mark ev) body"
      unfolding body_def by (rule emits_instagram_try)
    have G: "user_data W = user_data w1 \<and>
     (trace W = trace w1 @ [Chat (ReplyText Processing)] \<and> stats W = stats w1
      \<or> (\<exists>es tl. trace W
                    = trace w1 @ [Chat (ReplyText Processing), TaskCreate] @ es @ tl @ [TaskCancel]
            \<and> trace (snd B) = trace w2 @ es
            \<and> list_all (\<lambda>ev. \<not> handler_mark ev) es
            \<and> stats W = stats (snd B)
            \<and> (case fst B of
                  Inr u \<Rightarrow> tl = []
                | Inl x \<Rightarrow> tl = [Chat (EditText UnexpectedError)]
                    \<or> tl = [Chat (EditText UnexpectedError), Log Error ''Instagram error'' x])))"
      using guarded_shape[OF em, where e = e and msg = UnexpectedError
        and lbl = "''Instagram error''" and w = w1]
      unfolding W_def prog_def B_def w2_def .
    from G have "user_data W = user_data w1" by simp
    moreover
    from G consider
        (early) "trace W = trace w1 @ [Chat (ReplyText Processing)]" "stats W = stats w1"
      | (task) es tl where
          "trace W = trace w1 @ [Chat (ReplyText Processing), TaskCreate] @ es @ tl @ [TaskCancel]"
          "list_all (\<lambda>ev. \<not> handler_mark ev) es" "stats W = stats (snd B)"
          "case fst B of Inr u \<Rightarrow> tl = []
           | Inl x \<Rightarrow> tl = [Chat (EditText UnexpectedError)]
               \<or> tl = [Chat (EditText UnexpectedError), Log Error ''Instagram error'' x]"
      by blast
    then have "(\<exists>c. trace W = trace w @ [Chat (ReplyText c)] \<and> stats W = stats w)
     \<or> (\<exists>es tl. trace W = trace w @ [Chat (ReplyText Processing), TaskCreate] @ es @ tl @ [TaskCancel]
          \<and> list_all (\<lambda>ev. \<not> handler_mark ev) es
          \<and> (tl = [] \<and> (\<exists>b. stats W = track_command u ''instagram'' b (stats w))
             \<or> (\<exists>x. tl = [Chat (EditText UnexpectedError)]
                    \<or> tl = [Chat (EditText UnexpectedError), Log Error ''Instagram error'' x])
               \<and> stats W = stats w))"
    proof cases
      case early
      then show ?thesis using f by auto
    next
      case task
      show ?thesis
      proof (cases "fst B")
        case (Inl x)
        with task T have "(\<exists>x. tl = [Chat (EditText UnexpectedError)]
                    \<or> tl = [Chat (EditText UnexpectedError), Log Error ''Instagram error'' x])
               \<and> stats W = stats w" by auto
        with task(1)[unfolded f(2)] task(2) show ?thesis by blast
      next
        case (Inr v)
        with task T have "tl = [] \<and> (\<exists>b. stats W = track_command u ''instagram'' b (stats w))"
          by auto
        with task(1)[unfolded f(2)] task(2) show ?thesis by blast
      qed
    qed
    ultimately show ?thesis unfolding h ud by blast
  qed
qed

lemma handle_tiktok_shape:
  fixes e u args w
  defines "w' \<equiv> snd (handle_tiktok e u args w)"
  shows "user_data w' = user_data (snd (check_cooldown e u w)) \<and>
    ((\<exists>c. trace w' = trace w @ [Chat (ReplyText c)] \<and> stats w' = stats w)
     \<or> (\<exists>es tl. trace w' = trace w @ [Chat (ReplyText Processing), TaskCreate] @ es @ tl @ [TaskCancel]
          \<and> list_all (\<lambda>ev. \<not> handler_mark ev) es
          \<and> (tl = [] \<and> ((\<exists>b. stats w' = track_command u ''tiktok'' b (stats w))
                        \<or> stats w' = stats w
                          \<and> (\<exists>err. Chat (EditText (ErrorText err)) \<in> set es))
             \<or> (\<exists>x. tl = [Chat (EditText ErrorOccurred)]
                    \<or> tl = [Chat (EditText ErrorOccurred), Log Error [] x])
               \<and> stats w' = stats w)))"
proof -
  obtain on_cd wait w1 where cc: "check_cooldown e u w = ((on_cd, wait), w1)"
    by (metis prod.exhaust)
  have f: "stats w1 = stats w" "trace w1 = trace w"
    using check_cooldown_frame[of e u w] cc by simp_all
  show ?thesis
  proof (cases "on_cd \<or> args = []")
    case True
    then show ?thesis
      using cc f by (cases args) (auto simp: w'_def handle_tiktok_def chat_call_def)
  next
    case False
    then obtain link rest where args: "args = link # rest" by (cases args) auto
    define body where "body = and_then (call_api e ''tiktok'' link []) (tiktok_relay e u)"
    define w2 where "w2 = w1\<lparr>trace := trace w1 @ [Chat (ReplyText Processing), TaskCreate]\<rparr>"
    define prog where "prog =
       and_then (chat_call e (ReplyText Processing)) (\<lambda>_.
       and_then (emit TaskCreate) (\<lambda>_.
       try_finally
         (try_except body
            (\<lambda>x. and_then (chat_call e (EditText ErrorOccurred)) (\<lambda>_.
                  emit (Log Error [] x))))
         (emit TaskCancel)))"
    define W where "W = snd (prog w1)"
    define B where "B = body w2"
    have h: "w' = W"
      using cc False args by (simp add: w'_def W_def prog_def body_def handle_tiktok_def)
    have ud: "user_data (snd (check_cooldown e u w)) = user_data w1" using cc by simp
    have T: "tor_at u ''tiktok'' w2 B"
      using tor_tiktok_try[of u e link] unfolding tracks_or_reports_def body_def B_def
      by (rule spec)
    have sw2: "stats w2 = stats w" by (simp add: w2_def f)
    have em: "emits (\<lambda>ev. \<not> handler_mark ev) body"
      unfolding body_def by (rule emits_tiktok_try)
    have G: "user_data W = user_data w1 \<and>
     (trace W = trace w1 @ [Chat (ReplyText Processing)] \<and> stats W = stats w1
      \<or> (\<exists>es tl. trace W
                    = trace w1 @ [Chat (ReplyText Processing), TaskCreate] @ es @ tl @ [TaskCancel]
            \<and> trace (snd B) = trace w2 @ es
            \<and> list_all (\<lambda>ev. \<not> handler_mark ev) es
            \<and> stats W = stats (snd B)
            \<and> (case fst B of
                  Inr u \<Rightarrow> tl = []
                | Inl x \<Rightarrow> tl = [Chat (EditText ErrorOccurred)]
                    \<or> tl = [Chat (EditText ErrorOccurred), Log Error [] x])))"
      using guarded_shape[OF em, where e = e and msg = ErrorOccurred
        and lbl = "[]" and w = w1]
      unfolding W_def prog_def B_def w2_def .
    from G have "user_data W = user_data w1" by simp
    moreover
    from G consider
        (early) "trace W = trace w1 @ [Chat (ReplyText Processing)]" "stats W = stats w1"
      | (task) es tl where
          "trace W = trace w1 @ [Chat (ReplyText Processing), TaskCreate] @ es @ tl @ [TaskCancel]"
          "trace (snd B) = trace w2 @ es"
          "list_all (\<lambda>ev. \<not> handler_mark ev) es" "stats W = stats (snd B)"
          "case fst B of Inr u \<Rightarrow> tl = []
           | Inl x \<Rightarrow> tl = [Chat (EditText ErrorOccurred)]
               \<or> tl = [Chat (EditText ErrorOccurred), Log Error [] x]"
      by blast
    then have "(\<exists>c. trace W = trace w @ [Chat (ReplyText c)] \<and> stats W = stats w)
     \<or> (\<exists>es tl. trace W = trace w @ [Chat (ReplyText Processing), TaskCreate] @ es @ tl @ [TaskCancel]
          \<and> list_all (\<lambda>ev. \<not> handler_mark ev) es
          \<and> (tl = [] \<and> ((\<exists>b. stats W = track_command u ''tiktok'' b (stats w))
                        \<or> stats W = stats w
                          \<and> (\<exists>err. Chat (EditText (ErrorText err)) \<in> set es))
             \<or> (\<exists>x. tl = [Chat (EditText ErrorOccurred)]
                    \<or> tl = [Chat (EditText ErrorOccurred), Log Error [] x])
               \<and> stats W = stats w))"
    proof cases
      case early
      then show ?thesis using f by auto
    next
      case task
      have ne: "new_events w2 (snd B) = es" by (simp add: new_events_def task(2))
      show ?thesis
      proof (cases "fst B")
        case (Inl x)
        with task T sw2 have "(\<exists>x. tl = [Chat (EditText ErrorOccurred)]
                    \<or> tl = [Chat (EditText ErrorOccurred), Log Error [] x])
               \<and> stats W = stats w" by (auto simp: tor_at_def)
        with task(1)[unfolded f(2)] task(3) show ?thesis by blast
      next
        case (Inr v)
        with task T sw2 ne have "tl = [] \<and> ((\<exists>b. stats W = track_command u ''tiktok'' b (stats w))
                        \<or> stats W = stats w
                          \<and> (\<exists>err. Chat (EditText (ErrorText err)) \<in> set es))"
          by (auto simp: tor_at_def)
        with task(1)[unfolded f(2)] task(3) show ?thesis by blast
      qed
    qed
    ultimately show ?thesis unfolding h ud by blast
  qed
qed

subsection \<open>Command handlers\<close>

lemmas run_defs = handle_instagram_def handle_tiktok_def check_cooldown_def is_admin_def
  last_cmd_def call_api_def instagram_relay_def tiktok_relay_def tiktok_deliver_def
  send_media_from_url_def dict_update_def failure_def Let_def

lemma count_list_unmarked:
  "list_all (\<lambda>ev. \<not> handler_mark ev) es \<Longrightarrow>
     count_list es TaskCreate = 0 \<and> count_list es TaskCancel = 0
     \<and> count_list es (Chat (EditText UnexpectedError)) = 0
     \<and> count_list es (Chat (EditText ErrorOccurred)) = 0"
  by (induction es) auto

lemma unmarked_not_in:
  "list_all (\<lambda>ev. \<not> handler_mark ev) es \<Longrightarrow>
     TaskCreate \<notin> set es \<and> TaskCancel \<notin> set es
     \<and> Chat (EditText UnexpectedError) \<notin> set es \<and> Chat (EditText ErrorOccurred) \<notin> set es"
  by (induction es) auto

lemma new_events_append: "trace w' = trace w @ es \<Longrightarrow> new_events w w' = es"
  by (simp add: new_events_def)

lemma task_cancelled_last_shape:
  assumes "list_all (\<lambda>ev. \<not> handler_mark ev) es"
    and "post = [] \<or> post = [Chat (EditText m)] \<or> post = [Chat (EditText m), Log Error l x]"
  shows "task_cancelled_last ([Chat (ReplyText Processing), TaskCreate] @ es @ post @ [TaskCancel])"
  using count_list_unmarked[OF assms(1)] assms(2)
  by (auto simp: task_cancelled_last_def)

text \<open>
  C9. Whenever a command handler starts the progress task, the events of the invocation
  start it exactly once and cancel it exactly once, and the cancellation is the last event,
  whatever the extraction, the relay and the chat transport did (the \<^verbatim>\<open>finally\<close> block).
  The indicator itself returns normally as soon as one of its awaits raises, in particular
  when the cancellation is delivered there: nothing propagates out of it.
\<close>

theorem progress_task_cancelled:
  "(TaskCreate \<in> set (new_events w (snd (handle_instagram e u args w)))
      \<longrightarrow> task_cancelled_last (new_events w (snd (handle_instagram e u args w))))
   \<and> (TaskCreate \<in> set (new_events w (snd (handle_tiktok e u args w)))
      \<longrightarrow> task_cancelled_last (new_events w (snd (handle_tiktok e u args w))))
   \<and> ((\<exists>d. edit_text (i + d) (Spinner ((i + d) mod 10)) \<noteq> None \<or> sleep (i + d) \<noteq> None)
      \<longrightarrow> loading_animation edit_text sleep i = Some (Inr ()))"
proof (intro conjI impI)
  assume c: "TaskCreate \<in> set (new_events w (snd (handle_instagram e u args w)))"
  from handle_instagram_shape[of e u args w] consider
      (early) m where "trace (snd (handle_instagram e u args w)) = trace w @ [Chat (ReplyText m)]"
    | (task) es tl x where
        "trace (snd (handle_instagram e u args w))
           = trace w @ [Chat (ReplyText Processing), TaskCreate] @ es @ tl @ [TaskCancel]"
        "list_all (\<lambda>ev. \<not> handler_mark ev) es"
        "tl = [] \<or> tl = [Chat (EditText UnexpectedError)]
         \<or> tl = [Chat (EditText UnexpectedError), Log Error ''Instagram error'' x]"
    by blast
  then show "task_cancelled_last (new_events w (snd (handle_instagram e u args w)))"
  proof cases
    case early
    from new_events_append[OF early] c show ?thesis by simp
  next
    case task
    from new_events_append[OF task(1)] task_cancelled_last_shape[OF task(2,3)]
    show ?thesis by simp
  qed
next
  assume c: "TaskCreate \<in> set (new_events w (snd (handle_tiktok e u args w)))"
  from handle_tiktok_shape[of e u args w] consider
      (early) m where "trace (snd (handle_tiktok e u args w)) = trace w @ [Chat (ReplyText m)]"
    | (task) es tl x where
        "trace (snd (handle_tiktok e u args w))
           = trace w @ [Chat (ReplyText Processing), TaskCreate] @ es @ tl @ [TaskCancel]"
        "list_all (\<lambda>ev. \<not> handler_mark ev) es"
        "tl = [] \<or> tl = [Chat (EditText ErrorOccurred)]
         \<or> tl = [Chat (EditText ErrorOccurred), Log Error [] x]"
    by blast
  then show "task_cancelled_last (new_events w (snd (handle_tiktok e u args w)))"
  proof cases
    case early
    from new_events_append[OF early] c show ?thesis by simp
  next
    case task
    from new_events_append[OF task(1)] task_cancelled_last_shape[OF task(2,3)]
    show ?thesis by simp
  qed
next
  assume "\<exists>d. edit_text (i + d) (Spinner ((i + d) mod 10)) \<noteq> None \<or> sleep (i + d) \<noteq> None"
  then show "loading_animation edit_text sleep i = Some (Inr ())"
    using anim_returns by blast
qed

text \<open>
  C3, as the code has it. A command without a link sends exactly one message and nothing
  else happens outside (no request to the extraction API or to a media URL), and the
  statistics are unchanged. The message is the wait notice when the rate limiter blocks and
  the usage text otherwise. The rate limiter runs before the argument is looked at: for a
  user who is not an administrator and not on cooldown, \<^verbatim>\<open>last_cmd\<close> becomes the current
  time; for an administrator or a blocked user \<^verbatim>\<open>user_data\<close> is unchanged.
\<close>

theorem missing_link_reports_usage:
  "trace (snd (handle_instagram e u [] w)) =
     trace w @ [Chat (ReplyText (if fst (fst (check_cooldown e u w))
                                  then WaitBeforeNext (snd (fst (check_cooldown e u w)))
                                  else Usage ''instagram''))]
   \<and> stats (snd (handle_instagram e u [] w)) = stats w
   \<and> user_data (snd (handle_instagram e u [] w)) =
       (if is_admin e u \<or> time_now e - last_cmd w < of_int (command_cooldown e)
        then user_data w else (user_data w)(''last_cmd'' \<mapsto> time_now e))
   \<and> trace (snd (handle_tiktok e u [] w)) =
     trace w @ [Chat (ReplyText (if fst (fst (check_cooldown e u w))
                                  then WaitShort (snd (fst (check_cooldown e u w)))
                                  else Usage ''tiktok''))]
   \<and> stats (snd (handle_tiktok e u [] w)) = stats w
   \<and> user_data (snd (handle_tiktok e u [] w)) =
       (if is_admin e u \<or> time_now e - last_cmd w < of_int (command_cooldown e)
        then user_data w else (user_data w)(''last_cmd'' \<mapsto> time_now e))"
  by (simp add: handle_instagram_def handle_tiktok_def check_cooldown_def Let_def chat_call_def)

theorem missing_link_reports_usage_witness:
  "trace (snd (handle_tiktok env_a 5 [] world_a)) = [Chat (ReplyText (WaitShort (37 / 10)))]
   \<and> user_data (snd (handle_tiktok env_a 5 [] world_a)) = user_data world_a
   \<and> trace (snd (handle_instagram env_a 1 [] world_a)) = [Chat (ReplyText (Usage ''instagram''))]
   \<and> user_data (snd (handle_instagram env_a 1 [] world_a)) = user_data world_a"
proof -
  have r: "py_round1 (187 / 50) = 37 / 10"
    by (simp add: py_round1_def round_half_even_def Let_def floor_rat_numeral)
  show ?thesis
    using missing_link_reports_usage[of env_a 5 world_a]
      missing_link_reports_usage[of env_a 1 world_a]
    by (simp add: check_cooldown_def is_admin_def last_cmd_def env_a_def world_a_def Let_def r)
qed

text \<open>
  C3 as stated fails: user 5, not an administrator and never seen before, sends
  \<^verbatim>\<open>/instagram\<close> without a link at time 2000. The usage text is the only event, and the
  user's \<^verbatim>\<open>last_cmd\<close>, absent before, is 2000 afterwards.
\<close>

theorem missing_link_updates_timestamp:
  "trace (snd (handle_instagram env_b 5 [] world_b)) = [Chat (ReplyText (Usage ''instagram''))]
   \<and> user_data world_b ''last_cmd'' = None
   \<and> user_data (snd (handle_instagram env_b 5 [] world_b)) ''last_cmd'' = Some 2000"
  by (simp add: run_defs prog_defs env_b_def world_b_def)

subsection \<open>What a command records\<close>

lemma and_then_lift:
  "and_then (lift r) f w = (case r of Inl x \<Rightarrow> (Inl x, w) | Inr a \<Rightarrow> f a w)"
  by (simp add: and_then_def lift_def split: sum.splits)

lemma and_then_ret: "and_then (ret a) f w = f a w"
  by (simp add: and_then_def ret_def)

lemma records_modify: "records u cmd b (modify_stats (track_command u cmd b))"
  by (simp add: records_def records_at_def modify_stats_def)

lemma records_and_then:
  assumes "keeps_stats m" and "\<And>a. records u cmd b (f a)"
  shows "records u cmd b (and_then m f)"
  unfolding records_def
proof (intro allI)
  fix w
  obtain r w1 where m: "m w = (r, w1)" by (cases "m w")
  with assms(1) have 1: "stats w1 = stats w" unfolding keeps_stats_def by (metis snd_conv)
  show "records_at u cmd b w (and_then m f w)"
  proof (cases r)
    case (Inl x)
    with m 1 show ?thesis by (simp add: and_then_def records_at_def)
  next
    case (Inr a)
    with m have eq: "and_then m f w = f a w1" by (simp add: and_then_def)
    from assms(2)[of a] have "records_at u cmd b w1 (f a w1)"
      unfolding records_def by (rule spec)
    then show ?thesis unfolding eq records_at_def 1 .
  qed
qed

lemma records_instagram_relay:
  "records_at u ''instagram'' (extracted data ''urls'') w (instagram_relay e u data w)"
proof -
  define T where "T =
       and_then (lift (subscript_key data ''urls'')) (\<lambda>urls.
       and_then (lift (py_iter urls)) (\<lambda>items.
       and_then (instagram_loop e (length items) 1 items (0, [])) (\<lambda>result.
       and_then (chat_call e Delete) (\<lambda>_.
       and_then (if snd result \<noteq> []
                 then chat_call e (ReplyHtml (LargeFiles (fst result) (snd result)))
                 else ret ()) (\<lambda>_.
       modify_stats (track_command u ''instagram'' True))))))"
  define E where "E =
       and_then (lift (dict_get data ''error'' (JStr ''Unknown''))) (\<lambda>err.
       and_then (chat_call e (EditText (ErrorText err))) (\<lambda>_.
       modify_stats (track_command u ''instagram'' False)))"
  have T: "records_at u ''instagram'' True w (T w)"
  proof -
    have "records u ''instagram'' True T"
      unfolding T_def
      by (intro records_and_then records_modify keeps_intros keeps_instagram_loop)
    then show ?thesis unfolding records_def by (rule spec)
  qed
  have E: "records_at u ''instagram'' False w (E w)"
  proof -
    have "records u ''instagram'' False E"
      unfolding E_def
      by (intro records_and_then records_modify keeps_intros)
    then show ?thesis unfolding records_def by (rule spec)
  qed
  have eq: "instagram_relay e u data =
     and_then (lift (dict_get data ''success'' JNull)) (\<lambda>success.
     and_then (if truthy success then lift (dict_get data ''urls'' JNull) else ret success) (\<lambda>cond.
     if truthy cond then T else E))"
    unfolding instagram_relay_def T_def E_def ..
  have raised: "records_at u ''instagram'' b w (Inl x, w)" for b x
    by (simp add: records_at_def)
  show ?thesis
  proof (cases "dict_get data ''success'' JNull")
    case (Inl x)
    then show ?thesis by (simp add: eq and_then_lift raised)
  next
    case s: (Inr s)
    show ?thesis
    proof (cases "truthy s")
      case False
      with s have "instagram_relay e u data w = E w"
        by (simp add: eq and_then_lift and_then_ret)
      moreover from s False have "\<not> extracted data ''urls''" by (simp add: extracted_def)
      ultimately show ?thesis using E by simp
    next
      case True
      show ?thesis
      proof (cases "dict_get data ''urls'' JNull")
        case (Inl x)
        with s True show ?thesis by (simp add: eq and_then_lift raised)
      next
        case c: (Inr c)
        show ?thesis
        proof (cases "truthy c")
          case False
          with s True c have "instagram_relay e u data w = E w"
            by (simp add: eq and_then_lift)
          moreover from s c False have "\<not> extracted data ''urls''" by (simp add: extracted_def)
          ultimately show ?thesis using E by simp
        next
          case tc: True
          with s True c have "instagram_relay e u data w = T w"
            by (simp add: eq and_then_lift)
          moreover from s c True tc have "extracted data ''urls''" by (simp add: extracted_def)
          ultimately show ?thesis using T by simp
        qed
      qed
    qed
  qed
qed

lemma send_media_video:
  "(fst (send_media_from_url e dl ''video'' c p w) = Inr True
      \<and> (\<exists>d. new_events w (snd (send_media_from_url e dl ''video'' c p w))
               = [Http (MediaGet dl), Chat (ReplyVideo d c (p, ''.mp4''))]))
   \<or> (fst (send_media_from_url e dl ''video'' c p w) = Inr False
      \<and> (\<exists>x. Log Warning ''Send failed'' x
               \<in> set (new_events w (snd (send_media_from_url e dl ''video'' c p w)))))"
proof (cases "http_get e (length (trace w)) (MediaGet dl)")
  case (Inl x)
  then show ?thesis
    by (simp add: send_media_from_url_def prog_defs Let_def new_events_def)
next
  case (Inr r)
  show ?thesis
  proof (cases "raise_for_status r")
    case (Some x)
    with Inr show ?thesis
      by (simp add: send_media_from_url_def prog_defs Let_def new_events_def)
  next
    case None
    show ?thesis
    proof (cases "content r")
      case (Inl x)
      with Inr None show ?thesis
        by (simp add: send_media_from_url_def prog_defs Let_def new_events_def)
    next
      case Inr2: (Inr data)
      show ?thesis
      proof (cases "chat e (Suc (length (trace w))) (ReplyVideo data c (p, ''.mp4''))")
        case cn: None
        with Inr None Inr2 show ?thesis
          by (simp add: send_media_from_url_def prog_defs Let_def new_events_def)
      next
        case cs: (Some x)
        with Inr None Inr2 show ?thesis
          by (simp add: send_media_from_url_def prog_defs Let_def new_events_def)
      qed
    qed
  qed
qed


lemma delivery_rest:
  "delivery_at u w
     (and_then (send_media_from_url e dl ''video'' cap pre) (\<lambda>sent.
        if sent
        then and_then (chat_call e Delete) (\<lambda>_.
             modify_stats (track_command u ''tiktok'' True))
        else and_then (chat_call e (EditText (TooLarge dl))) (\<lambda>_.
             modify_stats (track_command u ''tiktok'' False))) w)"
proof -
  define S where "S = send_media_from_url e dl ''video'' cap pre w"
  from emits_send_media[of "\<lambda>ev. True" e dl "''video''" cap pre]
  obtain es where tr: "trace (snd S) = trace w @ es"
    unfolding emits_def S_def by auto
  have st: "stats (snd S) = stats w"
    using keeps_send_media[of e dl "''video''" cap pre] unfolding keeps_stats_def S_def by simp
  have ne: "new_events w (snd S) = es" by (rule new_events_append[OF tr])
  from send_media_video[of e dl cap pre w] consider
      (sent) d where "fst S = Inr True" "es = [Http (MediaGet dl), Chat (ReplyVideo d cap (pre, ''.mp4''))]"
    | (failed) x where "fst S = Inr False" "Log Warning ''Send failed'' x \<in> set es"
    unfolding S_def[symmetric] ne by blast
  then show ?thesis
  proof cases
    case sent
    define w2 where "w2 = snd S"
    have S2: "send_media_from_url e dl ''video'' cap pre w = (Inr True, w2)"
      using sent(1) by (simp add: w2_def S_def prod_eq_iff)
    have f: "trace w2 = trace w @ es" "stats w2 = stats w" using tr st by (simp_all add: w2_def)
    show ?thesis
      by (cases "chat e (length (trace w2)) Delete")
         (simp_all add: and_then_def S2 chat_call_def modify_stats_def delivery_at_def
            new_events_def f sent(2))
  next
    case failed
    define w2 where "w2 = snd S"
    have S2: "send_media_from_url e dl ''video'' cap pre w = (Inr False, w2)"
      using failed(1) by (simp add: w2_def S_def prod_eq_iff)
    have f: "trace w2 = trace w @ es" "stats w2 = stats w" using tr st by (simp_all add: w2_def)
    have l: "\<exists>x. Log Warning ''Send failed'' x \<in> set es" using failed(2) by blast
    show ?thesis
      by (cases "chat e (length (trace w2)) (EditText (TooLarge dl))")
         (auto simp: and_then_def S2 chat_call_def modify_stats_def delivery_at_def
            new_events_def f l)
  qed
qed

lemma delivery_at_shift:
  assumes "delivery_at u w1 r" and "trace w1 = trace w @ [Chat c]" and "stats w1 = stats w"
    and "trace (snd r) = trace w1 @ es"
  shows "delivery_at u w r"
proof -
  have 1: "new_events w1 (snd r) = es" by (rule new_events_append[OF assms(4)])
  have 2: "new_events w (snd r) = Chat c # es"
    using new_events_append[of "snd r" w "Chat c # es"] assms(2,4) by simp
  have 3: "(\<exists>x. Log Warning ''Send failed'' x \<in> set (Chat c # es))
           = (\<exists>x. Log Warning ''Send failed'' x \<in> set es)" by simp
  have 4: "ev \<in> set es \<Longrightarrow> ev \<in> set (Chat c # es)" for ev by simp
  show ?thesis
  proof (cases "fst r")
    case (Inl x)
    with assms(1) show ?thesis by (simp add: delivery_at_def assms(3))
  next
    case (Inr v)
    show ?thesis
    proof (cases "\<exists>x. Log Warning ''Send failed'' x \<in> set es")
      case True
      with assms(1) Inr have "stats (snd r) = track_command u ''tiktok'' False (stats w)"
        and "\<exists>dl. Chat (EditText (TooLarge dl)) \<in> set es"
        by (simp_all add: delivery_at_def 1 assms(3))
      with 4 have "stats (snd r) = track_command u ''tiktok'' False (stats w)
        \<and> (\<exists>dl. Chat (EditText (TooLarge dl)) \<in> set (Chat c # es))" by blast
      with True Inr show ?thesis unfolding delivery_at_def 2 3 by simp
    next
      case False
      with assms(1) Inr have "stats (snd r) = track_command u ''tiktok'' True (stats w)"
        and "Chat Delete \<in> set es" and "\<exists>d c f. Chat (ReplyVideo d c f) \<in> set es"
        by (simp_all add: delivery_at_def 1 assms(3))
      with 4 have "stats (snd r) = track_command u ''tiktok'' True (stats w)
        \<and> Chat Delete \<in> set (Chat c # es)
        \<and> (\<exists>d c' f. Chat (ReplyVideo d c' f) \<in> set (Chat c # es))" by blast
      with False Inr show ?thesis unfolding delivery_at_def 2 3 by simp
    qed
  qed
qed

lemma delivery_core:
  "delivery_at u w
     (and_then (if truthy thumbnail
               then and_then (lift (subscript_key video ''thumbnail'')) (\<lambda>t.
                    chat_call e (ReplyPhotoRef t))
               else ret ()) (\<lambda>_.
      and_then (send_media_from_url e dl ''video'' (BoldTitle title) (Plain ''tiktok'')) (\<lambda>sent.
        if sent
        then and_then (chat_call e Delete) (\<lambda>_.
             modify_stats (track_command u ''tiktok'' True))
        else and_then (chat_call e (EditText (TooLarge dl))) (\<lambda>_.
             modify_stats (track_command u ''tiktok'' False)))) w)"
proof -
  define REST where "REST =
      and_then (send_media_from_url e dl ''video'' (BoldTitle title) (Plain ''tiktok'')) (\<lambda>sent.
        if sent
        then and_then (chat_call e Delete) (\<lambda>_.
             modify_stats (track_command u ''tiktok'' True))
        else and_then (chat_call e (EditText (TooLarge dl))) (\<lambda>_.
             modify_stats (track_command u ''tiktok'' False)))"
  have R: "delivery_at u w' (REST w')" for w'
    unfolding REST_def by (rule delivery_rest)
  have em: "emits (\<lambda>ev. True) REST"
    unfolding REST_def by (intro emits_intros emits_send_media) simp_all
  have goal: "delivery_at u w
     (and_then (if truthy thumbnail
               then and_then (lift (subscript_key video ''thumbnail'')) (\<lambda>t.
                    chat_call e (ReplyPhotoRef t))
               else ret ()) (\<lambda>_. REST) w)"
  proof (cases "truthy thumbnail")
    case False
    then show ?thesis using R[of w] by (simp add: and_then_ret)
  next
    case True
    show ?thesis
    proof (cases "subscript_key video ''thumbnail''")
      case (Inl x)
      with True show ?thesis by (simp add: and_then_def lift_def delivery_at_def)
    next
      case (Inr t)
      define w1 where "w1 = w\<lparr>trace := trace w @ [Chat (ReplyPhotoRef t)]\<rparr>"
      show ?thesis
      proof (cases "chat e (length (trace w)) (ReplyPhotoRef t)")
        case (Some x)
        with True Inr show ?thesis
          by (simp add: and_then_def lift_def chat_call_def delivery_at_def)
      next
        case None
        with True Inr have eq: "and_then (if truthy thumbnail
               then and_then (lift (subscript_key video ''thumbnail'')) (\<lambda>t.
                    chat_call e (ReplyPhotoRef t))
               else ret ()) (\<lambda>_. REST) w = REST w1"
          by (simp add: and_then_def lift_def chat_call_def w1_def)
        from em obtain es where es: "trace (snd (REST w1)) = trace w1 @ es"
          unfolding emits_def by blast
        have "delivery_at u w (REST w1)"
          by (rule delivery_at_shift[OF R[of w1] _ _ es, of _ "ReplyPhotoRef t"])
             (simp_all add: w1_def)
        then show ?thesis unfolding eq .
      qed
    qed
  qed
  then show ?thesis unfolding REST_def .
qed

lemma post_lift:
  "(\<And>x. Q (Inl x, w)) \<Longrightarrow> (\<And>a. Q (f a w)) \<Longrightarrow> Q (and_then (lift r) f w)"
  by (cases r) (simp_all add: and_then_lift)

lemma delivery_raised: "delivery_at u w (Inl x, w)"
  by (simp add: delivery_at_def)

lemma delivery_tiktok_deliver: "delivery_at u w (tiktok_deliver e u data w)"
  unfolding tiktok_deliver_def
  by (intro post_lift[where Q = "delivery_at u w"] delivery_raised delivery_core)

lemma tiktok_relay_extracted:
  "extracted data ''data'' \<Longrightarrow> tiktok_relay e u data w = tiktok_deliver e u data w"
  by (auto simp: tiktok_relay_unfold extracted_def split: sum.splits)

lemma call_api_fst:
  "length (trace w) = length (trace w') \<Longrightarrow>
     fst (call_api e ep l kw w) = fst (call_api e ep l kw w')"
  by (simp add: call_api_def prog_defs split: sum.splits option.splits)

lemma call_api_returns: "\<exists>data. fst (call_api e ep l kw w) = Inr data"
  by (simp add: call_api_def prog_defs split: sum.splits option.splits)

lemma call_api_answer:
  assumes "trace w1 = trace w"
  shows "fst (call_api e ep l [] (w1\<lparr>trace := trace w1 @ [Chat (ReplyText Processing), TaskCreate]\<rparr>))
           = Inr (api_answer e ep l w)"
proof -
  from call_api_returns obtain data where
    d: "fst (call_api e ep l [] (w\<lparr>trace := trace w @ [Chat (ReplyText Processing), TaskCreate]\<rparr>))
          = Inr data" by blast
  then have "api_answer e ep l w = data" by (simp add: api_answer_def)
  with d show ?thesis
    using call_api_fst[of "w1\<lparr>trace := trace w1 @ [Chat (ReplyText Processing), TaskCreate]\<rparr>"
        "w\<lparr>trace := trace w @ [Chat (ReplyText Processing), TaskCreate]\<rparr>" e ep l "[]"] assms
    by simp
qed

lemma guarded_started:
  fixes e :: env and msg :: message and lbl :: string and body :: "unit prog" and w :: world
  assumes "chat e (length (trace w)) (ReplyText Processing) = None"
  defines "w2 \<equiv> w\<lparr>trace := trace w @ [Chat (ReplyText Processing), TaskCreate]\<rparr>"
  defines "prog \<equiv>
     and_then (chat_call e (ReplyText Processing)) (\<lambda>_.
     and_then (emit TaskCreate) (\<lambda>_.
     try_finally
       (try_except body
          (\<lambda>x. and_then (chat_call e (EditText msg)) (\<lambda>_. emit (Log Error lbl x))))
       (emit TaskCancel)))"
  shows "stats (snd (prog w)) = stats (snd (body w2))
     \<and> (\<exists>post. trace (snd (prog w)) = trace (snd (body w2)) @ post @ [TaskCancel]
           \<and> (case fst (body w2) of
                 Inr v \<Rightarrow> post = []
               | Inl x \<Rightarrow> Chat (EditText msg) \<in> set post))"
proof -
  obtain r w3 where b: "body w2 = (r, w3)" by (cases "body w2")
  have w2w: "w\<lparr>trace := trace w @ [Chat (ReplyText Processing), TaskCreate]\<rparr> = w2"
    by (simp add: w2_def)
  show ?thesis
  proof (cases r)
    case (Inr u)
    with assms(1) b show ?thesis
      by (simp add: prog_def prog_defs w2w)
  next
    case (Inl x)
    with assms(1) b show ?thesis
      by (cases "chat e (length (trace w3)) (EditText msg)")
         (simp_all add: prog_def prog_defs w2w)
  qed
qed


lemma not_started_keeps:
  assumes "\<not> starts e u args w"
  shows "stats (snd (handle_instagram e u args w)) = stats w"
    and "stats (snd (handle_tiktok e u args w)) = stats w"
proof -
  obtain on_cd wait w1 where cc: "check_cooldown e u w = ((on_cd, wait), w1)"
    by (metis prod.exhaust)
  have f: "stats w1 = stats w" "trace w1 = trace w"
    using check_cooldown_frame[of e u w] cc by simp_all
  have "stats (snd (handle_instagram e u args w)) = stats w
      \<and> stats (snd (handle_tiktok e u args w)) = stats w"
  proof (cases "on_cd \<or> args = []")
    case True
    then show ?thesis
      using cc f
      by (cases args) (auto simp: handle_instagram_def handle_tiktok_def chat_call_def)
  next
    case False
    then obtain link rest where args: "args = link # rest" by (cases args) auto
    from assms False cc obtain x where "chat e (length (trace w)) (ReplyText Processing) = Some x"
      by (auto simp: starts_def)
    with cc False args f show ?thesis
      by (simp add: handle_instagram_def handle_tiktok_def and_then_def chat_call_def)
  qed
  then show "stats (snd (handle_instagram e u args w)) = stats w"
    and "stats (snd (handle_tiktok e u args w)) = stats w" by simp_all
qed

lemma instagram_started:
  assumes "starts e u args w"
    and "Chat (EditText UnexpectedError) \<notin> set (new_events w (snd (handle_instagram e u args w)))"
  shows "stats (snd (handle_instagram e u args w))
           = track_command u ''instagram''
               (extracted (api_answer e ''insta'' (hd args) w) ''urls'') (stats w)"
proof -
  obtain on_cd wait w1 where cc: "check_cooldown e u w = ((on_cd, wait), w1)"
    by (metis prod.exhaust)
  have f: "stats w1 = stats w" "trace w1 = trace w"
    using check_cooldown_frame[of e u w] cc by simp_all
  from assms(1) cc have ncd: "\<not> on_cd" and ne: "args \<noteq> []"
    and ch: "chat e (length (trace w1)) (ReplyText Processing) = None"
    by (simp_all add: starts_def f)
  from ne obtain link rest where args: "args = link # rest" by (cases args) auto
  define body where "body = and_then (call_api e ''insta'' link []) (instagram_relay e u)"
  define w2 where "w2 = w1\<lparr>trace := trace w1 @ [Chat (ReplyText Processing), TaskCreate]\<rparr>"
  define prog where "prog =
     and_then (chat_call e (ReplyText Processing)) (\<lambda>_.
     and_then (emit TaskCreate) (\<lambda>_.
     try_finally
       (try_except body
          (\<lambda>x. and_then (chat_call e (EditText UnexpectedError)) (\<lambda>_.
                emit (Log Error ''Instagram error'' x))))
       (emit TaskCancel)))"
  define W where "W = snd (prog w1)"
  define B where "B = body w2"
  define data where "data = api_answer e ''insta'' link w"
  define w3 where "w3 = snd (call_api e ''insta'' link [] w2)"
  have h: "snd (handle_instagram e u args w) = W"
    using cc ncd args by (simp add: W_def prog_def body_def handle_instagram_def)
  from guarded_started[OF ch, where msg = UnexpectedError and lbl = "''Instagram error''"
      and body = body]
  obtain post where st: "stats W = stats (snd B)"
    and tr: "trace W = trace (snd B) @ post @ [TaskCancel]"
    and cs: "case fst B of Inr v \<Rightarrow> post = [] | Inl x \<Rightarrow> Chat (EditText UnexpectedError) \<in> set post"
    unfolding W_def prog_def B_def w2_def by blast
  from emits_instagram_try[of e link u] obtain es where
    es: "trace (snd B) = trace w2 @ es"
    unfolding emits_def B_def body_def by blast
  have ev: "new_events w W = [Chat (ReplyText Processing), TaskCreate] @ es @ post @ [TaskCancel]"
    by (rule new_events_append) (simp add: tr es w2_def f)
  have ok: "fst B = Inr ()"
  proof (cases "fst B")
    case (Inl x)
    with cs have "Chat (EditText UnexpectedError) \<in> set (new_events w W)"
      unfolding ev by simp
    with assms(2) show ?thesis unfolding h by simp
  qed simp
  have ca: "call_api e ''insta'' link [] w2 = (Inr data, w3)"
    using call_api_answer[OF f(2), of e "''insta''" link]
    by (simp add: w2_def w3_def data_def prod_eq_iff)
  have s3: "stats w3 = stats w"
    using keeps_call_api[of e "''insta''" link "[]"] unfolding keeps_stats_def w3_def
    by (simp add: w2_def f)
  have B: "B = instagram_relay e u data w3"
    by (simp add: B_def body_def and_then_def ca)
  from records_instagram_relay[of u data w3 e] ok
  have "stats (snd B) = track_command u ''instagram'' (extracted data ''urls'') (stats w)"
    unfolding B[symmetric] by (simp add: records_at_def s3)
  then show ?thesis using h st by (simp add: data_def args)
qed

lemma tiktok_started:
  assumes "starts e u args w"
    and "Chat (EditText ErrorOccurred) \<notin> set (new_events w (snd (handle_tiktok e u args w)))"
    and "extracted (api_answer e ''tiktok'' (hd args) w) ''data''"
  shows "if \<exists>x. Log Warning ''Send failed'' x \<in> set (new_events w (snd (handle_tiktok e u args w)))
         then stats (snd (handle_tiktok e u args w)) = track_command u ''tiktok'' False (stats w)
              \<and> (\<exists>dl. Chat (EditText (TooLarge dl))
                         \<in> set (new_events w (snd (handle_tiktok e u args w))))
         else stats (snd (handle_tiktok e u args w)) = track_command u ''tiktok'' True (stats w)
              \<and> Chat Delete \<in> set (new_events w (snd (handle_tiktok e u args w)))
              \<and> (\<exists>d c f. Chat (ReplyVideo d c f)
                           \<in> set (new_events w (snd (handle_tiktok e u args w))))"
proof -
  obtain on_cd wait w1 where cc: "check_cooldown e u w = ((on_cd, wait), w1)"
    by (metis prod.exhaust)
  have f: "stats w1 = stats w" "trace w1 = trace w"
    using check_cooldown_frame[of e u w] cc by simp_all
  from assms(1) cc have ncd: "\<not> on_cd" and ne: "args \<noteq> []"
    and ch: "chat e (length (trace w1)) (ReplyText Processing) = None"
    by (simp_all add: starts_def f)
  from ne obtain link rest where args: "args = link # rest" by (cases args) auto
  define body where "body = and_then (call_api e ''tiktok'' link []) (tiktok_relay e u)"
  define w2 where "w2 = w1\<lparr>trace := trace w1 @ [Chat (ReplyText Processing), TaskCreate]\<rparr>"
  define prog where "prog =
     and_then (chat_call e (ReplyText Processing)) (\<lambda>_.
     and_then (emit TaskCreate) (\<lambda>_.
     try_finally
       (try_except body
          (\<lambda>x. and_then (chat_call e (EditText ErrorOccurred)) (\<lambda>_.
                emit (Log Error [] x))))
       (emit TaskCancel)))"
  define W where "W = snd (prog w1)"
  define B where "B = body w2"
  define data where "data = api_answer e ''tiktok'' link w"
  define w3 where "w3 = snd (call_api e ''tiktok'' link [] w2)"
  have h: "snd (handle_tiktok e u args w) = W"
    using cc ncd args by (simp add: W_def prog_def body_def handle_tiktok_def)
  from guarded_started[OF ch, where msg = ErrorOccurred and lbl = "[]" and body = body]
  obtain post where st: "stats W = stats (snd B)"
    and tr: "trace W = trace (snd B) @ post @ [TaskCancel]"
    and cs: "case fst B of Inr v \<Rightarrow> post = [] | Inl x \<Rightarrow> Chat (EditText ErrorOccurred) \<in> set post"
    unfolding W_def prog_def B_def w2_def by blast
  have ca: "call_api e ''tiktok'' link [] w2 = (Inr data, w3)"
    using call_api_answer[OF f(2), of e "''tiktok''" link]
    by (simp add: w2_def w3_def data_def prod_eq_iff)
  have s3: "stats w3 = stats w"
    using keeps_call_api[of e "''tiktok''" link "[]"] unfolding keeps_stats_def w3_def
    by (simp add: w2_def f)
  from emits_call_api[of "\<lambda>ev. \<forall>x. ev \<noteq> Log Warning ''Send failed'' x" e "''tiktok''" link "[]"]
  obtain es0 where es0: "trace w3 = trace w2 @ es0"
    and n0: "list_all (\<lambda>ev. \<forall>x. ev \<noteq> Log Warning ''Send failed'' x) es0"
    unfolding emits_def w3_def by auto
  have ex: "extracted data ''data''" using assms(3) by (simp add: data_def args)
  have B: "B = tiktok_deliver e u data w3"
    by (simp add: B_def body_def and_then_def ca tiktok_relay_extracted[OF ex])
  from emits_tiktok_relay[of "\<lambda>ev. True" e u data] obtain es1 where
    es1: "trace (snd B) = trace w3 @ es1"
    unfolding emits_def B tiktok_relay_extracted[OF ex, symmetric] by auto
  have ev: "new_events w W
      = [Chat (ReplyText Processing), TaskCreate] @ es0 @ es1 @ post @ [TaskCancel]"
    by (rule new_events_append) (simp add: tr es1 es0 w2_def f)
  have ok: "fst B = Inr ()"
  proof (cases "fst B")
    case (Inl x)
    with cs have "Chat (EditText ErrorOccurred) \<in> set (new_events w W)"
      unfolding ev by simp
    with assms(2) show ?thesis unfolding h by simp
  qed simp
  with cs have post: "post = []" by simp
  have n1: "new_events w3 (snd B) = es1" by (rule new_events_append[OF es1])
  have n0': "Log Warning ''Send failed'' x \<notin> set es0" for x
    using n0 by (auto simp: list_all_iff)
  have lg: "(\<exists>x. Log Warning ''Send failed'' x \<in> set (new_events w W))
      = (\<exists>x. Log Warning ''Send failed'' x \<in> set es1)"
    unfolding ev post using n0' by auto
  have sub: "x \<in> set es1 \<Longrightarrow> x \<in> set (new_events w W)" for x
    unfolding ev by simp
  from delivery_tiktok_deliver[of u w3 e data] ok
  have D: "if \<exists>x. Log Warning ''Send failed'' x \<in> set es1
       then stats (snd B) = track_command u ''tiktok'' False (stats w)
            \<and> (\<exists>dl. Chat (EditText (TooLarge dl)) \<in> set es1)
       else stats (snd B) = track_command u ''tiktok'' True (stats w)
            \<and> Chat Delete \<in> set es1
            \<and> (\<exists>d c f. Chat (ReplyVideo d c f) \<in> set es1)"
    unfolding B[symmetric] delivery_at_def n1 s3 by simp
  show ?thesis
  proof (cases "\<exists>x. Log Warning ''Send failed'' x \<in> set es1")
    case True
    with D have "stats (snd B) = track_command u ''tiktok'' False (stats w)"
      and "\<exists>dl. Chat (EditText (TooLarge dl)) \<in> set es1" by simp_all
    with sub have "stats W = track_command u ''tiktok'' False (stats w)
        \<and> (\<exists>dl. Chat (EditText (TooLarge dl)) \<in> set (new_events w W))"
      unfolding st by blast
    with True show ?thesis unfolding h lg by simp
  next
    case False
    with D have "stats (snd B) = track_command u ''tiktok'' True (stats w)"
      and "Chat Delete \<in> set es1" and "\<exists>d c f. Chat (ReplyVideo d c f) \<in> set es1" by simp_all
    with sub have "stats W = track_command u ''tiktok'' True (stats w)
        \<and> Chat Delete \<in> set (new_events w W)
        \<and> (\<exists>d c f. Chat (ReplyVideo d c f) \<in> set (new_events w W))"
      unfolding st by blast
    with False show ?thesis unfolding h lg by simp
  qed
qed


text \<open>
  C4, as the code has it. A command invocation changes the statistics by at most one call
  of \<^verbatim>\<open>track_command\<close>, which adds one to \<^verbatim>\<open>total_requests\<close> and one to exactly one of
  the success and failure counters. The statistics are left unchanged when the invocation
  does not start (the rate limiter blocks, no link is given, or the chat transport refuses
  the \<^verbatim>\<open>Processing...\<close> reply) and when the \<^verbatim>\<open>except\<close> block has sent its generic error
  message. When the invocation starts and the generic error message is not sent:
  \<^verbatim>\<open>/instagram\<close> records exactly once, a success when the answer of the extraction client
  has a true \<^verbatim>\<open>success\<close> and a true \<^verbatim>\<open>urls\<close>, a failure otherwise; \<^verbatim>\<open>/tiktok\<close>, when the
  answer has a true \<^verbatim>\<open>success\<close> and a true \<^verbatim>\<open>data\<close>, records exactly once, a failure when
  the relay logged \<^verbatim>\<open>Send failed\<close> (it returned \<^verbatim>\<open>False\<close>), and then the link was sent in
  the \<^verbatim>\<open>Too large\<close> message, a success otherwise, and then the video was sent and the status
  message deleted.
\<close>

theorem stats_mutated_at_most_once:
  "(stats (snd (handle_instagram e u args w)) = stats w
      \<or> stats (snd (handle_instagram e u args w)) = track_command u ''instagram'' True (stats w)
      \<or> stats (snd (handle_instagram e u args w)) = track_command u ''instagram'' False (stats w))
   \<and> (\<not> starts e u args w \<longrightarrow> stats (snd (handle_instagram e u args w)) = stats w)
   \<and> (Chat (EditText UnexpectedError) \<in> set (new_events w (snd (handle_instagram e u args w)))
      \<longrightarrow> stats (snd (handle_instagram e u args w)) = stats w)
   \<and> (starts e u args w
        \<and> Chat (EditText UnexpectedError) \<notin> set (new_events w (snd (handle_instagram e u args w)))
      \<longrightarrow> stats (snd (handle_instagram e u args w))
            = track_command u ''instagram''
                (extracted (api_answer e ''insta'' (hd args) w) ''urls'') (stats w))
   \<and> (stats (snd (handle_tiktok e u args w)) = stats w
      \<or> stats (snd (handle_tiktok e u args w)) = track_command u ''tiktok'' True (stats w)
      \<or> stats (snd (handle_tiktok e u args w)) = track_command u ''tiktok'' False (stats w))
   \<and> (\<not> starts e u args w \<longrightarrow> stats (snd (handle_tiktok e u args w)) = stats w)
   \<and> (Chat (EditText ErrorOccurred) \<in> set (new_events w (snd (handle_tiktok e u args w)))
      \<longrightarrow> stats (snd (handle_tiktok e u args w)) = stats w)
   \<and> (starts e u args w
        \<and> Chat (EditText ErrorOccurred) \<notin> set (new_events w (snd (handle_tiktok e u args w)))
        \<and> extracted (api_answer e ''tiktok'' (hd args) w) ''data''
      \<longrightarrow> (if \<exists>x. Log Warning ''Send failed'' x
                    \<in> set (new_events w (snd (handle_tiktok e u args w)))
           then stats (snd (handle_tiktok e u args w))
                  = track_command u ''tiktok'' False (stats w)
                \<and> (\<exists>dl. Chat (EditText (TooLarge dl))
                           \<in> set (new_events w (snd (handle_tiktok e u args w))))
           else stats (snd (handle_tiktok e u args w))
                  = track_command u ''tiktok'' True (stats w)
                \<and> Chat Delete \<in> set (new_events w (snd (handle_tiktok e u args w)))
                \<and> (\<exists>d c f. Chat (ReplyVideo d c f)
                             \<in> set (new_events w (snd (handle_tiktok e u args w))))))
   \<and> total_requests (track_command u cmd b s) = total_requests s + 1
   \<and> successful_requests (track_command u cmd b s)
       = successful_requests s + (if b then 1 else 0)
   \<and> failed_requests (track_command u cmd b s) = failed_requests s + (if b then 0 else 1)"
proof -
  define wi where "wi = snd (handle_instagram e u args w)"
  define wt where "wt = snd (handle_tiktok e u args w)"
  from handle_instagram_shape[of e u args w] consider
      (early) m where "new_events w wi = [Chat (ReplyText m)]" "stats wi = stats w"
    | (tracked) es where "new_events w wi = [Chat (ReplyText Processing), TaskCreate] @ es @ [TaskCancel]"
        "list_all (\<lambda>ev. \<not> handler_mark ev) es"
        "\<exists>b. stats wi = track_command u ''instagram'' b (stats w)"
    | (failed) es post where
        "new_events w wi = [Chat (ReplyText Processing), TaskCreate] @ es @ post @ [TaskCancel]"
        "Chat (EditText UnexpectedError) \<in> set post" "stats wi = stats w"
    unfolding wi_def[symmetric]
  proof (elim conjE disjE exE, goal_cases)
    case (1 c)
    then show ?case using new_events_append[of wi w] by blast
  next
    case (2 es post b)
    then show ?case using new_events_append[of wi w "[Chat (ReplyText Processing), TaskCreate] @ es @ [] @ [TaskCancel]"]
      by (metis append_Nil)
  next
    case (3 es post x)
    then show ?case
      using new_events_append[of wi w "[Chat (ReplyText Processing), TaskCreate] @ es @ post @ [TaskCancel]"]
      by (metis list.set_intros(1))
  next
    case (4 es post x)
    then show ?case
      using new_events_append[of wi w "[Chat (ReplyText Processing), TaskCreate] @ es @ post @ [TaskCancel]"]
      by (metis list.set_intros(1))
  qed
  then have I: "(stats wi = stats w \<or> (\<exists>b. stats wi = track_command u ''instagram'' b (stats w)))
     \<and> (Chat (EditText UnexpectedError) \<in> set (new_events w wi) \<longrightarrow> stats wi = stats w)"
  proof cases
    case early
    then show ?thesis by simp
  next
    case tracked
    with unmarked_not_in[OF tracked(2)] show ?thesis by auto
  next
    case failed
    then show ?thesis by auto
  qed
  from handle_tiktok_shape[of e u args w] consider
      (early) m where "new_events w wt = [Chat (ReplyText m)]" "stats wt = stats w"
    | (tracked) es where "new_events w wt = [Chat (ReplyText Processing), TaskCreate] @ es @ [TaskCancel]"
        "list_all (\<lambda>ev. \<not> handler_mark ev) es"
        "\<exists>b. stats wt = track_command u ''tiktok'' b (stats w)"
    | (reported) es err where
        "new_events w wt = [Chat (ReplyText Processing), TaskCreate] @ es @ [TaskCancel]"
        "list_all (\<lambda>ev. \<not> handler_mark ev) es"
        "Chat (EditText (ErrorText err)) \<in> set es" "stats wt = stats w"
    | (failed) es post where
        "new_events w wt = [Chat (ReplyText Processing), TaskCreate] @ es @ post @ [TaskCancel]"
        "Chat (EditText ErrorOccurred) \<in> set post" "stats wt = stats w"
    unfolding wt_def[symmetric]
  proof (elim conjE disjE exE, goal_cases)
    case (1 c)
    then show ?case using new_events_append[of wt w] by blast
  next
    case (2 es post b)
    then show ?case using new_events_append[of wt w "[Chat (ReplyText Processing), TaskCreate] @ es @ [] @ [TaskCancel]"]
      by (metis append_Nil)
  next
    case (3 es post err)
    then show ?case using new_events_append[of wt w "[Chat (ReplyText Processing), TaskCreate] @ es @ [] @ [TaskCancel]"]
      by (metis append_Nil)
  next
    case (4 es post x)
    then show ?case
      using new_events_append[of wt w "[Chat (ReplyText Processing), TaskCreate] @ es @ post @ [TaskCancel]"]
      by (metis list.set_intros(1))
  next
    case (5 es post x)
    then show ?case
      using new_events_append[of wt w "[Chat (ReplyText Processing), TaskCreate] @ es @ post @ [TaskCancel]"]
      by (metis list.set_intros(1))
  qed
  then have T: "(stats wt = stats w \<or> (\<exists>b. stats wt = track_command u ''tiktok'' b (stats w)))
     \<and> (Chat (EditText ErrorOccurred) \<in> set (new_events w wt) \<longrightarrow> stats wt = stats w)"
  proof cases
    case early
    then show ?thesis by simp
  next
    case tracked
    with unmarked_not_in[OF tracked(2)] show ?thesis by auto
  next
    case reported
    with unmarked_not_in[OF reported(2)] show ?thesis by auto
  next
    case failed
    then show ?thesis by auto
  qed
  have tf: "(\<exists>b. P b) \<Longrightarrow> P True \<or> P False" for P
    by (metis (full_types))
  from I have I1: "stats wi = stats w
      \<or> stats wi = track_command u ''instagram'' True (stats w)
      \<or> stats wi = track_command u ''instagram'' False (stats w)"
    using tf[of "\<lambda>b. stats wi = track_command u ''instagram'' b (stats w)"] by blast
  from T have T1: "stats wt = stats w
      \<or> stats wt = track_command u ''tiktok'' True (stats w)
      \<or> stats wt = track_command u ''tiktok'' False (stats w)"
    using tf[of "\<lambda>b. stats wt = track_command u ''tiktok'' b (stats w)"] by blast
  from I have I3: "Chat (EditText UnexpectedError) \<in> set (new_events w wi) \<longrightarrow> stats wi = stats w"
    by simp
  from T have T3: "Chat (EditText ErrorOccurred) \<in> set (new_events w wt) \<longrightarrow> stats wt = stats w"
    by simp
  have I2: "\<not> starts e u args w \<longrightarrow> stats wi = stats w"
    and T2: "\<not> starts e u args w \<longrightarrow> stats wt = stats w"
    unfolding wi_def wt_def using not_started_keeps[of e u args w] by simp_all
  have I4: "starts e u args w \<and> Chat (EditText UnexpectedError) \<notin> set (new_events w wi)
      \<longrightarrow> stats wi = track_command u ''instagram''
                (extracted (api_answer e ''insta'' (hd args) w) ''urls'') (stats w)"
    unfolding wi_def using instagram_started[of e u args w] by simp
  have T4: "starts e u args w \<and> Chat (EditText ErrorOccurred) \<notin> set (new_events w wt)
        \<and> extracted (api_answer e ''tiktok'' (hd args) w) ''data''
      \<longrightarrow> (if \<exists>x. Log Warning ''Send failed'' x \<in> set (new_events w wt)
           then stats wt = track_command u ''tiktok'' False (stats w)
                \<and> (\<exists>dl. Chat (EditText (TooLarge dl)) \<in> set (new_events w wt))
           else stats wt = track_command u ''tiktok'' True (stats w)
                \<and> Chat Delete \<in> set (new_events w wt)
                \<and> (\<exists>d c f. Chat (ReplyVideo d c f) \<in> set (new_events w wt)))"
    unfolding wt_def using tiktok_started[of e u args w] by blast
  note C = track_command_counts[of u cmd b s]
  from I1 I2 I3 I4 T1 T2 T3 T4 C show ?thesis unfolding wi_def wt_def by (intro conjI)
qed

lemma events_instagram_unreachable:
  "new_events world_b (snd (handle_instagram env_a 1 [''https://instagram.example/p/1''] world_b)) =
     [Chat (ReplyText Processing), TaskCreate,
      Http (ApiGet ''https://api.example/insta'' [(''url'', ''https://instagram.example/p/1'')]),
      Log Error ''API Error (insta)'' (Exn ''ConnectionError'' ''unreachable''),
      Chat (EditText (ErrorText (JStr ''unreachable''))),
      TaskCancel]"
  by (simp add: new_events_def run_defs prog_defs env_a_def world_b_def)

lemma events_tiktok_delivered:
  "new_events world_b (snd (handle_tiktok env_b 5 [''https://tiktok.example/v/1''] world_b)) =
     [Chat (ReplyText Processing), TaskCreate,
      Http (ApiGet ''https://api.example/tiktok'' [(''url'', ''https://tiktok.example/v/1'')]),
      Http (MediaGet (JStr ''https://cdn.example/t.mp4'')),
      Chat (ReplyVideo [1, 2, 3] (BoldTitle (JStr ''clip'')) (Plain ''tiktok'', ''.mp4'')),
      Chat Delete,
      TaskCancel]"
  by (simp add: new_events_def run_defs prog_defs env_b_def world_b_def tiktok_answer_def
      small_response_def)

lemma events_tiktok_deferred:
  "new_events world_b (snd (handle_tiktok env_d 5 [''https://tiktok.example/v/1''] world_b)) =
     [Chat (ReplyText Processing), TaskCreate,
      Http (ApiGet ''https://api.example/tiktok'' [(''url'', ''https://tiktok.example/v/1'')]),
      Http (MediaGet (JStr ''https://cdn.example/t.mp4'')),
      Chat (ReplyVideo [1, 2, 3] (BoldTitle (JStr ''clip'')) (Plain ''tiktok'', ''.mp4'')),
      Log Warning ''Send failed'' (Exn ''BadRequest'' ''Request Entity Too Large''),
      Chat (EditText (TooLarge (JStr ''https://cdn.example/t.mp4''))),
      TaskCancel]"
  by (simp add: new_events_def run_defs prog_defs env_d_def env_b_def world_b_def
      tiktok_answer_def small_response_def)

lemma answers_of_runs:
  "api_answer env_a ''insta'' ''https://instagram.example/p/1'' world_b = failure ''unreachable''"
  "api_answer env_b ''tiktok'' ''https://tiktok.example/v/1'' world_b = tiktok_answer"
  "api_answer env_d ''tiktok'' ''https://tiktok.example/v/1'' world_b = tiktok_answer"
  by (simp_all add: api_answer_def call_api_def prog_defs dict_update_def env_a_def env_b_def
      env_d_def world_b_def)

lemma run_instagram_edit_fails:
  "snd (handle_instagram env_c 5 [''https://instagram.example/p/1''] world_b) =
     world_b\<lparr>user_data := [''last_cmd'' \<mapsto> 2000],
             trace :=
               [Chat (ReplyText Processing), TaskCreate,
                Http (ApiGet ''https://api.example/insta''
                        [(''url'', ''https://instagram.example/p/1'')]),
                Chat (EditText (Downloading 1 2)),
                Chat (EditText UnexpectedError),
                Log Error ''Instagram error'' (Exn ''BadRequest'' ''Message is not modified''),
                TaskCancel]\<rparr>"
  by (simp add: run_defs prog_defs env_c_def env_b_def world_b_def insta_answer_def)

theorem stats_mutated_at_most_once_witness:
  "starts env_a 1 [''https://instagram.example/p/1''] world_b
   \<and> \<not> extracted (api_answer env_a ''insta'' ''https://instagram.example/p/1'' world_b) ''urls''
   \<and> stats (snd (handle_instagram env_a 1 [''https://instagram.example/p/1''] world_b))
       = track_command 1 ''instagram'' False (stats world_b)
   \<and> starts env_b 5 [''https://tiktok.example/v/1''] world_b
   \<and> extracted (api_answer env_b ''tiktok'' ''https://tiktok.example/v/1'' world_b) ''data''
   \<and> stats (snd (handle_tiktok env_b 5 [''https://tiktok.example/v/1''] world_b))
       = track_command 5 ''tiktok'' True (stats world_b)
   \<and> starts env_d 5 [''https://tiktok.example/v/1''] world_b
   \<and> extracted (api_answer env_d ''tiktok'' ''https://tiktok.example/v/1'' world_b) ''data''
   \<and> stats (snd (handle_tiktok env_d 5 [''https://tiktok.example/v/1''] world_b))
       = track_command 5 ''tiktok'' False (stats world_b)
   \<and> \<not> starts env_e 5 [''https://tiktok.example/v/1''] world_b
   \<and> stats (snd (handle_tiktok env_e 5 [''https://tiktok.example/v/1''] world_b)) = stats world_b"
proof -
  have s: "starts env_a 1 [''https://instagram.example/p/1''] world_b"
    "starts env_b 5 [''https://tiktok.example/v/1''] world_b"
    "starts env_d 5 [''https://tiktok.example/v/1''] world_b"
    "\<not> starts env_e 5 [''https://tiktok.example/v/1''] world_b"
    by (simp_all add: starts_def check_cooldown_def is_admin_def last_cmd_def Let_def
        env_a_def env_b_def env_d_def env_e_def world_b_def)
  have x: "\<not> extracted (api_answer env_a ''insta'' ''https://instagram.example/p/1'' world_b) ''urls''"
    "extracted (api_answer env_b ''tiktok'' ''https://tiktok.example/v/1'' world_b) ''data''"
    "extracted (api_answer env_d ''tiktok'' ''https://tiktok.example/v/1'' world_b) ''data''"
    unfolding answers_of_runs by (simp_all add: extracted_def failure_def tiktok_answer_def)
  have n: "Chat (EditText UnexpectedError) \<notin> set (new_events world_b
        (snd (handle_instagram env_a 1 [''https://instagram.example/p/1''] world_b)))"
    "Chat (EditText ErrorOccurred) \<notin> set (new_events world_b
        (snd (handle_tiktok env_b 5 [''https://tiktok.example/v/1''] world_b)))"
    "\<not> (\<exists>x. Log Warning ''Send failed'' x \<in> set (new_events world_b
        (snd (handle_tiktok env_b 5 [''https://tiktok.example/v/1''] world_b))))"
    "Chat (EditText ErrorOccurred) \<notin> set (new_events world_b
        (snd (handle_tiktok env_d 5 [''https://tiktok.example/v/1''] world_b)))"
    "\<exists>x. Log Warning ''Send failed'' x \<in> set (new_events world_b
        (snd (handle_tiktok env_d 5 [''https://tiktok.example/v/1''] world_b)))"
    unfolding events_instagram_unreachable events_tiktok_delivered events_tiktok_deferred
    by simp_all
  have a: "stats (snd (handle_instagram env_a 1 [''https://instagram.example/p/1''] world_b))
       = track_command 1 ''instagram'' False (stats world_b)"
    using stats_mutated_at_most_once[of env_a 1 "[''https://instagram.example/p/1'']" world_b]
      s(1) x(1) n(1) by simp
  have b: "stats (snd (handle_tiktok env_b 5 [''https://tiktok.example/v/1''] world_b))
       = track_command 5 ''tiktok'' True (stats world_b)"
    using stats_mutated_at_most_once[of env_b 5 "[''https://tiktok.example/v/1'']" world_b]
      s(2) x(2) n(2,3) by simp
  have c: "stats (snd (handle_tiktok env_d 5 [''https://tiktok.example/v/1''] world_b))
       = track_command 5 ''tiktok'' False (stats world_b)"
    using stats_mutated_at_most_once[of env_d 5 "[''https://tiktok.example/v/1'']" world_b]
      s(3) x(3) n(4,5) by simp
  have d: "stats (snd (handle_tiktok env_e 5 [''https://tiktok.example/v/1''] world_b))
       = stats world_b"
    using stats_mutated_at_most_once[of env_e 5 "[''https://tiktok.example/v/1'']" world_b]
      s(4) by simp
  from s x a b c d show ?thesis by simp
qed

text \<open>
  C4 as stated fails: user 5 passes the rate limiter and gives a link, the extraction
  succeeds with two URLs, and the first edit of the status message is refused. The
  \<^verbatim>\<open>except\<close> block reports the unexpected error and the statistics are not touched.
\<close>

theorem edit_failure_leaves_stats_unchanged:
  "fst (fst (check_cooldown env_c 5 world_b)) = False
   \<and> TaskCreate \<in> set (trace (snd (handle_instagram env_c 5 [''https://instagram.example/p/1''] world_b)))
   \<and> stats (snd (handle_instagram env_c 5 [''https://instagram.example/p/1''] world_b)) = stats world_b"
  unfolding run_instagram_edit_fails
  by (simp add: check_cooldown_def is_admin_def last_cmd_def env_c_def env_b_def world_b_def)

text \<open>
  The \<^verbatim>\<open>else\<close> branch of \<^verbatim>\<open>handle_tiktok\<close> has no \<^verbatim>\<open>track_command\<close>, unlike that of
  \<^verbatim>\<open>handle_instagram\<close>: when the extraction fails, the error is reported and nothing is
  recorded.
\<close>

lemma tiktok_extraction_failure_not_recorded:
  "snd (handle_tiktok env_a 1 [''https://tiktok.example/v/1''] world_b) =
     world_b\<lparr>trace :=
               [Chat (ReplyText Processing), TaskCreate,
                Http (ApiGet ''https://api.example/tiktok''
                        [(''url'', ''https://tiktok.example/v/1'')]),
                Log Error ''API Error (tiktok)'' (Exn ''HTTPError'' ''404 Client Error''),
                Chat (EditText (ErrorText (JStr ''404 Client Error''))),
                TaskCancel]\<rparr>"
  by (simp add: run_defs prog_defs env_a_def world_b_def)

theorem progress_task_cancelled_witness:
  "TaskCreate \<in> set (new_events world_b
       (snd (handle_instagram env_c 5 [''https://instagram.example/p/1''] world_b)))
   \<and> task_cancelled_last (new_events world_b
       (snd (handle_instagram env_c 5 [''https://instagram.example/p/1''] world_b)))
   \<and> loading_animation (\<lambda>k m. None) (\<lambda>k. if k = 2 then Some Cancelled else None) 0
       = Some (Inr ())"
proof -
  have h: "TaskCreate \<in> set (new_events world_b
       (snd (handle_instagram env_c 5 [''https://instagram.example/p/1''] world_b)))"
    unfolding run_instagram_edit_fails by (simp add: new_events_def world_b_def)
  have a: "\<exists>d. (\<lambda>k m. None) (0 + d) (Spinner ((0 + d) mod 10)) \<noteq> None
             \<or> (\<lambda>k. if k = 2 then Some Cancelled else None) (0 + d) \<noteq> None"
    by (rule exI[of _ 2]) simp
  from progress_task_cancelled[of world_b env_c 5 "[''https://instagram.example/p/1'']"
      "\<lambda>k m. None" 0 "\<lambda>k. if k = 2 then Some Cancelled else None"] h a
  show ?thesis by blast
qed

subsection \<open>The loop over the media URLs\<close>

lemma media_gets_append: "media_gets (xs @ ys) = media_gets xs @ media_gets ys"
  by (induction xs rule: media_gets.induct) simp_all

lemma send_media_returns: "\<exists>b. fst (send_media_from_url e u k c p w) = Inr b"
proof -
  have "\<exists>b. fst (try_except m (\<lambda>x. and_then (emit (Log Warning ''Send failed'' x)) (\<lambda>_. ret False)) w)
          = Inr b" for m :: "bool prog"
  proof (cases "m w")
    case (Pair r w')
    then show ?thesis by (cases r) (auto simp: try_except_def and_then_def emit_def ret_def)
  qed
  then show ?thesis unfolding send_media_from_url_def by blast
qed

lemma send_media_trace:
  "\<exists>es. trace (snd (send_media_from_url e u k c p w)) = trace w @ es \<and> media_gets es = [u]"
proof (cases "http_get e (length (trace w)) (MediaGet u)")
  case (Inl x)
  then show ?thesis
    by (simp add: send_media_from_url_def prog_defs Let_def)
next
  case (Inr r)
  show ?thesis
  proof (cases "raise_for_status r")
    case (Some x)
    with Inr show ?thesis
      by (simp add: send_media_from_url_def prog_defs Let_def)
  next
    case None
    show ?thesis
    proof (cases "content r")
      case (Inl x)
      with Inr None show ?thesis
        by (simp add: send_media_from_url_def prog_defs Let_def)
    next
      case Inr2: (Inr data)
      with Inr None show ?thesis
        by (simp add: send_media_from_url_def prog_defs Let_def split: option.splits)
    qed
  qed
qed

lemma send_media_shape:
  "(\<exists>b. fst (send_media_from_url e u k c p w) = Inr b)
   \<and> (\<exists>es. trace (snd (send_media_from_url e u k c p w)) = trace w @ es \<and> media_gets es = [u])"
  using send_media_returns send_media_trace by blast

lemma instagram_loop_run:
  assumes ok: "\<forall>k i. chat e k (EditText (Downloading i n)) = None"
  shows "fst (instagram_loop e n i (map JStr urls) acc w) =
           Inr (fst acc + length (filter id (relay_outcomes e n i (map JStr urls) w)),
                snd acc @ map (JStr \<circ> fst)
                            (filter (\<lambda>p. \<not> snd p)
                               (zip urls (relay_outcomes e n i (map JStr urls) w))))
         \<and> (\<exists>es. trace (snd (instagram_loop e n i (map JStr urls) acc w)) = trace w @ es
                \<and> media_gets es = map JStr urls)"
proof (induction urls arbitrary: i acc w)
  case Nil
  show ?case by (simp add: ret_def)
next
  case (Cons url urls)
  define w1 where "w1 = w\<lparr>trace := trace w @ [Chat (EditText (Downloading i n))]\<rparr>"
  define kind where "kind = (if contains ''mp4'' url then ''video'' else ''photo'')"
  define S where "S = send_media_from_url e (JStr url) kind (InstagramMedia i) (IgPrefix i) w1"
  have c: "chat_call e (EditText (Downloading i n)) w = (Inr (), w1)"
    using ok by (simp add: chat_call_def w1_def)
  from send_media_shape[of e "JStr url" kind "InstagramMedia i" "IgPrefix i" w1]
  obtain b es1 where s: "fst S = Inr b" and t1: "trace (snd S) = trace w1 @ es1"
    and m1: "media_gets es1 = [JStr url]"
    unfolding S_def by blast
  define w2 where "w2 = snd S"
  have S2: "S = (Inr b, w2)" using s by (simp add: w2_def prod_eq_iff)
  define acc' where "acc' = (if b then (fst acc + 1, snd acc) else (fst acc, snd acc @ [JStr url]))"
  define L where "L = instagram_loop e n (i + 1) (map JStr urls) acc' w2"
  from Cons.IH[of "i + 1" acc' w2] obtain es2 where
    r: "fst L =
           Inr (fst acc' + length (filter id (relay_outcomes e n (i + 1) (map JStr urls) w2)),
                snd acc' @ map (JStr \<circ> fst)
                            (filter (\<lambda>p. \<not> snd p)
                               (zip urls (relay_outcomes e n (i + 1) (map JStr urls) w2))))"
    and t2: "trace (snd L) = trace w2 @ es2"
    and m2: "media_gets es2 = map JStr urls" unfolding L_def by blast
  have step: "instagram_loop e n i (map JStr (url # urls)) acc w = L"
    using c S2 by (simp add: and_then_def lift_def kind_def acc'_def L_def S_def)
  have ro: "relay_outcomes e n i (map JStr (url # urls)) w
              = b # relay_outcomes e n (i + 1) (map JStr urls) w2"
    using c S2 by (simp add: Let_def kind_def S_def)
  have tr: "trace (snd L) = trace w @ ([Chat (EditText (Downloading i n))] @ es1 @ es2)"
    by (simp add: t2 w2_def t1 w1_def)
  have mg: "media_gets ([Chat (EditText (Downloading i n))] @ es1 @ es2) = map JStr (url # urls)"
    by (simp add: media_gets_append m1 m2)
  have res: "fst L = Inr (fst acc + length (filter id (b # relay_outcomes e n (i + 1) (map JStr urls) w2)),
                snd acc @ map (JStr \<circ> fst)
                            (filter (\<lambda>p. \<not> snd p)
                               (zip (url # urls) (b # relay_outcomes e n (i + 1) (map JStr urls) w2))))"
    unfolding r by (cases b) (simp_all add: acc'_def)
  show ?case
    unfolding step ro using res tr mg by blast
qed

lemma length_relay_outcomes: "length (relay_outcomes e n i urls w) = length urls"
  by (induction urls arbitrary: i w) (simp_all add: Let_def)

lemma count_delivered_deferred:
  "length flags = length urls \<Longrightarrow>
     length (filter id flags) + length (filter (\<lambda>p. \<not> snd p) (zip urls flags)) = length urls"
proof (induction urls arbitrary: flags)
  case Nil
  then show ?case by simp
next
  case (Cons u urls)
  then obtain b bs where "flags = b # bs" by (cases flags) auto
  with Cons show ?case by (cases b) auto
qed

lemma dict_get_truthy_subscript:
  assumes "dict_get data k JNull = Inr v" and "truthy v"
  shows "subscript_key data k = Inr v"
proof (cases data)
  case (JObj kvs)
  with assms show ?thesis by (cases "map_of kvs k") auto
qed (use assms in auto)

text \<open>
  C7, as the code has it. For an extraction result with a true \<^verbatim>\<open>success\<close> and a non-empty
  list of \<open>n\<close> URLs, and provided that no edit of the status message to
  \<^verbatim>\<open>Downloading i/n...\<close> is refused: the loop ends normally; the relay is called exactly once
  per URL, in the order of the list, in the loop and in the whole relay phase; \<^verbatim>\<open>uploaded\<close> is
  the number of calls that returned \<^verbatim>\<open>True\<close> and \<^verbatim>\<open>fallback\<close> lists exactly the URLs whose
  call returned \<^verbatim>\<open>False\<close>, in order, so that the two counts sum to \<open>n\<close>.
\<close>

theorem relay_once_per_url:
  assumes "\<forall>k i. chat e k (EditText (Downloading i n)) = None"
    and "n = length urls" and "urls \<noteq> []"
    and "dict_get data ''success'' JNull = Inr s" and "truthy s"
    and "dict_get data ''urls'' JNull = Inr (JList (map JStr urls))"
  shows "fst (instagram_loop e n 1 (map JStr urls) (0, []) w) =
           Inr (length (filter id (relay_outcomes e n 1 (map JStr urls) w)),
                map (JStr \<circ> fst)
                    (filter (\<lambda>p. \<not> snd p) (zip urls (relay_outcomes e n 1 (map JStr urls) w))))
         \<and> media_gets (new_events w (snd (instagram_loop e n 1 (map JStr urls) (0, []) w)))
             = map JStr urls
         \<and> length (filter id (relay_outcomes e n 1 (map JStr urls) w))
             + length (filter (\<lambda>p. \<not> snd p) (zip urls (relay_outcomes e n 1 (map JStr urls) w)))
             = n
         \<and> media_gets (new_events w (snd (instagram_relay e user_id data w))) = map JStr urls"
proof -
  define L where "L = instagram_loop e n 1 (map JStr urls) (0, []) w"
  define flags where "flags = relay_outcomes e n 1 (map JStr urls) w"
  from instagram_loop_run[OF assms(1), of 1 urls "(0, [])" w] obtain es where
    r: "fst L = Inr (length (filter id flags),
                     map (JStr \<circ> fst) (filter (\<lambda>p. \<not> snd p) (zip urls flags)))"
    and t: "trace (snd L) = trace w @ es" and m: "media_gets es = map JStr urls"
    unfolding L_def flags_def by auto
  have c: "length (filter id flags) + length (filter (\<lambda>p. \<not> snd p) (zip urls flags)) = n"
    using count_delivered_deferred[of flags urls] length_relay_outcomes[of e n 1 "map JStr urls" w]
    by (simp add: flags_def assms(2))
  have ne: "media_gets (new_events w (snd L)) = map JStr urls"
    using new_events_append[OF t] m by simp
  obtain res w1 where L2: "L = (Inr res, w1)" and t1: "trace w1 = trace w @ es"
    using r t by (cases L) auto
  have sub: "subscript_key data ''urls'' = Inr (JList (map JStr urls))"
    using dict_get_truthy_subscript[OF assms(6)] assms(3) by simp
  have "\<exists>post. trace (snd (instagram_relay e user_id data w)) = trace w @ es @ post
           \<and> media_gets post = []"
    using assms(2-6) sub L2[unfolded L_def] t1
    by (auto simp: instagram_relay_def prog_defs split: option.splits)
  then obtain post where "trace (snd (instagram_relay e user_id data w)) = trace w @ (es @ post)"
    and "media_gets post = []" by auto
  then have nr: "media_gets (new_events w (snd (instagram_relay e user_id data w))) = map JStr urls"
    using new_events_append[of "snd (instagram_relay e user_id data w)" w "es @ post"] m
    by (simp add: media_gets_append)
  from r ne c nr show ?thesis unfolding L_def flags_def by simp
qed

lemma relay_outcomes_b:
  "relay_outcomes env_b 2 1 (map JStr [''https://cdn.example/a.mp4'', ''https://cdn.example/b.jpg''])
     world_b = [True, False]"
  by (simp add: Let_def chat_call_def send_media_from_url_def prog_defs env_b_def world_b_def
      small_response_def)

theorem relay_once_per_url_witness:
  "fst (instagram_loop env_b 2 1
          (map JStr [''https://cdn.example/a.mp4'', ''https://cdn.example/b.jpg'']) (0, []) world_b)
     = Inr (1, [JStr ''https://cdn.example/b.jpg''])
   \<and> media_gets (new_events world_b (snd (instagram_relay env_b 5 insta_answer world_b)))
     = [JStr ''https://cdn.example/a.mp4'', JStr ''https://cdn.example/b.jpg'']"
proof -
  have h1: "\<forall>k i. chat env_b k (EditText (Downloading i 2)) = None" by (simp add: env_b_def)
  have h2: "(2::nat) = length [''https://cdn.example/a.mp4'', ''https://cdn.example/b.jpg'']"
    by simp
  have h3: "[''https://cdn.example/a.mp4'', ''https://cdn.example/b.jpg''] \<noteq> []" by simp
  have h4: "dict_get insta_answer ''success'' JNull = Inr (JBool True)"
    by (simp add: insta_answer_def)
  have h5: "truthy (JBool True)" by simp
  have h6: "dict_get insta_answer ''urls'' JNull =
      Inr (JList (map JStr [''https://cdn.example/a.mp4'', ''https://cdn.example/b.jpg'']))"
    by (simp add: insta_answer_def)
  from relay_once_per_url[OF h1 h2 h3 h4 h5 h6, of world_b 5]
  show ?thesis unfolding relay_outcomes_b by simp
qed

text \<open>
  C7 as stated fails: the extraction succeeds with two URLs, the first edit of the status
  message is refused, and the relay is never called.
\<close>

theorem edit_failure_skips_relay:
  "fst (call_api env_c ''insta'' ''https://instagram.example/p/1'' [] world_b) = Inr insta_answer
   \<and> media_gets (trace (snd (handle_instagram env_c 5 [''https://instagram.example/p/1''] world_b)))
     = []"
  unfolding run_instagram_edit_fails
  by (simp add: call_api_def prog_defs dict_update_def env_c_def env_b_def world_b_def)

end
